theory Spec2Isabelle
  imports Main "HOL-Library.Sublist" "HOL-Library.AList"
begin

section \<open>Values of the template documents\<close>

text \<open>
  \<^verbatim>\<open>deploy_viewers.py\<close> works on the documents that \<^verbatim>\<open>yaml.safe_load_all\<close> returns:
  nested Python dicts and lists over scalars. A dict keeps the insertion order of its
  keys, so it is an association list with distinct keys; the keys of a manifest are
  strings. A floating-point scalar is carried as its text: the program never computes
  with one. The documents are trees (a document with YAML anchors, which makes the
  loader share one object between two places, is outside this model). On trees
  \<^verbatim>\<open>copy.deepcopy\<close> is the identity and a change in place is a new tree; what the
  program changes in memory and what it leaves alone is the subject of the sections on
  the objects in memory, further down.
\<close>

datatype yaml =
    YNull
  | YBool bool
  | YInt int
  | YFloat string
  | YStr string
  | YList "yaml list"
  | YDict "(string \<times> yaml) list"

text \<open>
  The Python exceptions the program can raise and does not catch (the interpreter prints a
  traceback and the process ends with status 1), and the diagnostics after which the
  program calls \<^verbatim>\<open>sys.exit(1)\<close> itself: no configuration of the client (line 53), no
  Deployment in the template file (line 65), the ConfigMap not found (line 25), another
  error reading it (line 29), a ConfigMap without data (line 32), no token (line 71), and
  fewer tokens than instances asked for (line 75, with the two numbers it prints).
  \<open>Unmodelled\<close> marks the few places where the model stops short of Python.
\<close>

datatype py_exception = KeyError | TypeError | AttributeError | IndexError | RecursionError

datatype failure =
    KubeConfigError
  | DeploymentNotFound
  | ConfigMapNotFound
  | ConfigMapFetchError nat
  | ConfigMapNoData
  | NoVpnConfigs
  | NotEnoughVpns int nat
  | Uncaught py_exception
  | Unmodelled

text \<open>Sequencing of steps that may fail: the first failure ends the computation.\<close>

definition bindE :: "failure + 'a \<Rightarrow> ('a \<Rightarrow> failure + 'b) \<Rightarrow> failure + 'b" where
  "bindE m f = (case m of Inl e \<Rightarrow> Inl e | Inr x \<Rightarrow> f x)"

section \<open>Strings\<close>

text \<open>\<^verbatim>\<open>str(i)\<close> of an integer: its decimal digits.\<close>

definition digit_char :: "nat \<Rightarrow> char" where
  "digit_char d = ''0123456789'' ! d"

function str_nat :: "nat \<Rightarrow> string" where
  "str_nat n = (if n < 10 then [digit_char n] else str_nat (n div 10) @ [digit_char (n mod 10)])"
  by pat_completeness auto
termination
  by (relation "measure id") auto

declare str_nat.simps [simp del]

definition str_int :: "int \<Rightarrow> string" where
  "str_int i = (if i < 0 then ''-'' @ str_nat (nat (- i)) else str_nat (nat i))"

text \<open>
  What an f-string writes for a value read from a document. Python writes a list or a dict
  through \<^verbatim>\<open>repr\<close> and a float through its shortest round-trip digits; the model
  leaves these three out (\<open>Unmodelled\<close>).
\<close>

fun py_format :: "yaml \<Rightarrow> failure + string" where
  "py_format (YStr s) = Inr s"
| "py_format (YInt i) = Inr (str_int i)"
| "py_format (YBool b) = Inr (if b then ''True'' else ''False'')"
| "py_format YNull = Inr ''None''"
| "py_format (YFloat _) = Inl Unmodelled"
| "py_format (YList _) = Inl Unmodelled"
| "py_format (YDict _) = Inl Unmodelled"

text \<open>
  \<^verbatim>\<open>s.replace(old, new)\<close>: every occurrence of \<open>old\<close>, found from the left and not
  overlapping, is replaced. For an empty \<open>old\<close> Python puts \<open>new\<close> before every
  character and at the end.
\<close>

function replace_nonempty :: "string \<Rightarrow> string \<Rightarrow> string \<Rightarrow> string" where
  "replace_nonempty old new s =
     (if s = [] \<or> old = [] then s
      else if prefix old s then new @ replace_nonempty old new (drop (length old) s)
      else hd s # replace_nonempty old new (tl s))"
  by pat_completeness auto
termination
  by (relation "measure (\<lambda>(old, new, s). length s)") auto

declare replace_nonempty.simps [simp del]

definition str_replace :: "string \<Rightarrow> string \<Rightarrow> string \<Rightarrow> string" where
  "str_replace old new s =
     (if old = [] then new @ concat (map (\<lambda>c. c # new) s) else replace_nonempty old new s)"

text \<open>\<^verbatim>\<open>key.endswith('.ovpn')\<close>\<close>

definition endswith :: "string \<Rightarrow> string \<Rightarrow> bool" where
  "endswith s suf = suffix suf s"

section \<open>The identity pool: \<^verbatim>\<open>get_available_vpn_configs\<close>\<close>

text \<open>
  What \<^verbatim>\<open>read_namespaced_config_map\<close> answers: the ConfigMap, whose \<^verbatim>\<open>data\<close> is
  a dict from strings to strings or \<^verbatim>\<open>None\<close>, or an \<^verbatim>\<open>ApiException\<close> with its
  HTTP status.
\<close>

datatype config_map_read =
    ConfigMapData "(string \<times> string) list option"
  | ConfigMapApiException nat

text \<open>
  The comprehension of line 19, over the keys in the order of the dict. The warning of
  line 21 for an empty result is printed and the empty list returned; \<^verbatim>\<open>main\<close> then
  ends the run at line 72.
\<close>

definition vpn_names :: "(string \<times> string) list \<Rightarrow> string list" where
  "vpn_names data =
     map (\<lambda>key. str_replace ''.ovpn'' '''' key) (filter (\<lambda>key. endswith key ''.ovpn'') (map fst data))"

fun get_available_vpn_configs :: "config_map_read \<Rightarrow> failure + string list" where
  "get_available_vpn_configs (ConfigMapData (Some data)) = Inr (vpn_names data)"
| "get_available_vpn_configs (ConfigMapData None) = Inl ConfigMapNoData"
| "get_available_vpn_configs (ConfigMapApiException status) =
     (if status = 404 then Inl ConfigMapNotFound else Inl (ConfigMapFetchError status))"

section \<open>Operations on documents\<close>

text \<open>\<^verbatim>\<open>bool(x)\<close>, as \<^verbatim>\<open>tpl and ...\<close> and \<^verbatim>\<open>if not x\<close> read it.\<close>

fun truthy :: "yaml \<Rightarrow> failure + bool" where
  "truthy YNull = Inr False"
| "truthy (YBool b) = Inr b"
| "truthy (YInt i) = Inr (i \<noteq> 0)"
| "truthy (YFloat _) = Inl Unmodelled"
| "truthy (YStr s) = Inr (s \<noteq> [])"
| "truthy (YList xs) = Inr (xs \<noteq> [])"
| "truthy (YDict d) = Inr (d \<noteq> [])"

text \<open>
  \<^verbatim>\<open>x[k]\<close> for a string \<open>k\<close>: a dict without the key raises \<^verbatim>\<open>KeyError\<close>, and
  every other value (a list, a string, \<^verbatim>\<open>None\<close>, a number) raises \<^verbatim>\<open>TypeError\<close>.
\<close>

definition subscript :: "yaml \<Rightarrow> string \<Rightarrow> failure + yaml" where
  "subscript x k =
     (case x of
        YDict d \<Rightarrow> (case map_of d k of Some v \<Rightarrow> Inr v | None \<Rightarrow> Inl (Uncaught KeyError))
      | _ \<Rightarrow> Inl (Uncaught TypeError))"

text \<open>\<^verbatim>\<open>x.get(k, default)\<close>: only a dict has the method.\<close>

definition dict_get :: "yaml \<Rightarrow> string \<Rightarrow> yaml \<Rightarrow> failure + yaml" where
  "dict_get x k dflt =
     (case x of
        YDict d \<Rightarrow> Inr (case map_of d k of Some v \<Rightarrow> v | None \<Rightarrow> dflt)
      | _ \<Rightarrow> Inl (Uncaught AttributeError))"

text \<open>
  \<^verbatim>\<open>x[k] = v\<close>, returning the changed \<open>x\<close>: a key already there keeps its place, a new
  key goes to the end (\<open>AList.update\<close>).
\<close>

definition set_item :: "yaml \<Rightarrow> string \<Rightarrow> yaml \<Rightarrow> failure + yaml" where
  "set_item x k v =
     (case x of
        YDict d \<Rightarrow> Inr (YDict (AList.update k v d))
      | _ \<Rightarrow> Inl (Uncaught TypeError))"

text \<open>\<^verbatim>\<open>x.setdefault(k, default)\<close>, returning the changed \<open>x\<close>.\<close>

definition setdefault :: "yaml \<Rightarrow> string \<Rightarrow> yaml \<Rightarrow> failure + yaml" where
  "setdefault x k dflt =
     (case x of
        YDict d \<Rightarrow> Inr (YDict (case map_of d k of Some _ \<Rightarrow> d | None \<Rightarrow> AList.update k dflt d))
      | _ \<Rightarrow> Inl (Uncaught AttributeError))"

text \<open>\<^verbatim>\<open>x[k1][k2]...\<close>\<close>

fun get_path :: "string list \<Rightarrow> yaml \<Rightarrow> failure + yaml" where
  "get_path [] x = Inr x"
| "get_path (k # ks) x = bindE (subscript x k) (get_path ks)"

text \<open>
  The program changes the object it reaches by \<^verbatim>\<open>x[k1][k2]...\<close> in place. On a tree
  that is the tree with the changed object at that place.
\<close>

fun update_path :: "string list \<Rightarrow> (yaml \<Rightarrow> failure + yaml) \<Rightarrow> yaml \<Rightarrow> failure + yaml" where
  "update_path [] f x = f x"
| "update_path (k # ks) f x =
     bindE (subscript x k) (\<lambda>c. bindE (update_path ks f c) (\<lambda>c'. set_item x k c'))"

text \<open>\<^verbatim>\<open>root[p1]...[pn][k] = v\<close> and \<^verbatim>\<open>root[p1]...[pn].setdefault(k, default)\<close>\<close>

definition assign :: "string list \<Rightarrow> string \<Rightarrow> yaml \<Rightarrow> yaml \<Rightarrow> failure + yaml" where
  "assign p k v root = update_path p (\<lambda>d. set_item d k v) root"

definition set_default :: "string list \<Rightarrow> string \<Rightarrow> yaml \<Rightarrow> yaml \<Rightarrow> failure + yaml" where
  "set_default p k dflt root = update_path p (\<lambda>d. setdefault d k dflt) root"

text \<open>
  The items a \<^verbatim>\<open>for\<close> loop visits: the elements of a list, the keys of a dict, the
  characters of a string; any other value is not iterable.
\<close>

fun py_iter :: "yaml \<Rightarrow> failure + yaml list" where
  "py_iter (YList xs) = Inr xs"
| "py_iter (YDict d) = Inr (map (\<lambda>(k, v). YStr k) d)"
| "py_iter (YStr s) = Inr (map (\<lambda>c. YStr [c]) s)"
| "py_iter YNull = Inl (Uncaught TypeError)"
| "py_iter (YBool _) = Inl (Uncaught TypeError)"
| "py_iter (YInt _) = Inl (Uncaught TypeError)"
| "py_iter (YFloat _) = Inl (Uncaught TypeError)"

text \<open>
  A value used as the key of a Python dict. \<^verbatim>\<open>True\<close> and \<^verbatim>\<open>1\<close> are the same key,
  as are \<^verbatim>\<open>False\<close> and \<^verbatim>\<open>0\<close>; a list or a dict is not hashable. A float is equal to
  the integer of its value, which its text does not decide here.
\<close>

datatype key = KNone | KNum int | KStr string

fun dict_key :: "yaml \<Rightarrow> failure + key" where
  "dict_key YNull = Inr KNone"
| "dict_key (YBool b) = Inr (KNum (if b then 1 else 0))"
| "dict_key (YInt i) = Inr (KNum i)"
| "dict_key (YStr s) = Inr (KStr s)"
| "dict_key (YFloat _) = Inl Unmodelled"
| "dict_key (YList _) = Inl (Uncaught TypeError)"
| "dict_key (YDict _) = Inl (Uncaught TypeError)"

section \<open>Materializing one instance\<close>

subsection \<open>The environment of the container \<^verbatim>\<open>viewer-box\<close> (lines 107 to 120)\<close>

text \<open>\<^verbatim>\<open>env_map = {ev['name']: ev for ev in env_vars}\<close>, entry by entry.\<close>

fun env_map_of :: "(key \<times> yaml) list \<Rightarrow> yaml list \<Rightarrow> failure + (key \<times> yaml) list" where
  "env_map_of acc [] = Inr acc"
| "env_map_of acc (ev # evs) =
     bindE (subscript ev ''name'') (\<lambda>n.
     bindE (dict_key n) (\<lambda>k.
     env_map_of (AList.update k ev acc) evs))"

definition env_var :: "string \<Rightarrow> string \<Rightarrow> yaml" where
  "env_var name val = YDict [(''name'', YStr name), (''value'', YStr val)]"

text \<open>Lines 110 to 118: the new value of \<^verbatim>\<open>container['env']\<close>.\<close>

definition merged_env :: "yaml \<Rightarrow> nat \<Rightarrow> string \<Rightarrow> string \<Rightarrow> failure + yaml list" where
  "merged_env container i stream_url vpn_config_name =
     bindE (dict_get container ''env'' (YList [])) (\<lambda>env_vars.
     bindE (py_iter env_vars) (\<lambda>evs.
     bindE (env_map_of [] evs) (\<lambda>env_map.
     Inr (map snd
       (AList.update (KStr ''VPN_CONFIG'') (env_var ''VPN_CONFIG'' vpn_config_name)
       (AList.update (KStr ''STREAM_URL'') (env_var ''STREAM_URL'' stream_url)
       (AList.update (KStr ''BOX_NAME'') (env_var ''BOX_NAME'' (''box-'' @ str_nat i))
          env_map)))))))"

text \<open>
  The loop of lines 108 to 120 over the containers, with its \<^verbatim>\<open>break\<close>: the containers
  after the first one named \<^verbatim>\<open>viewer-box\<close> are not looked at. The result is the list
  of containers and \<^verbatim>\<open>container_updated\<close>.
\<close>

fun inject_env :: "yaml list \<Rightarrow> nat \<Rightarrow> string \<Rightarrow> string \<Rightarrow> failure + (yaml list \<times> bool)" where
  "inject_env [] i stream_url vpn_config_name = Inr ([], False)"
| "inject_env (container # rest) i stream_url vpn_config_name =
     bindE (subscript container ''name'') (\<lambda>n.
       if n = YStr ''viewer-box'' then
         bindE (merged_env container i stream_url vpn_config_name) (\<lambda>env.
         bindE (set_item container ''env'' (YList env)) (\<lambda>container'.
         Inr (container' # rest, True)))
       else
         bindE (inject_env rest i stream_url vpn_config_name) (\<lambda>(rest', updated).
         Inr (container # rest', updated)))"

subsection \<open>The workload (lines 83 to 120)\<close>

text \<open>
  \<^verbatim>\<open>copy.deepcopy\<close> of a tree is the tree. The result is the deployment to send, its
  name, the component label (the service of the instance gets the same one) and
  \<^verbatim>\<open>container_updated\<close>.
\<close>

definition containers_path :: "string list" where
  "containers_path = [''spec'', ''template'', ''spec'', ''containers'']"

definition materialize_deployment ::
  "yaml \<Rightarrow> nat \<Rightarrow> string \<Rightarrow> string \<Rightarrow> int \<Rightarrow> failure + (yaml \<times> string \<times> string \<times> bool)" where
  "materialize_deployment base_deployment_template i vpn_config_name stream_url replicas =
     (let instance_suffix = ''-'' @ str_nat i;
          current_deployment = base_deployment_template
      in
      bindE (subscript current_deployment ''metadata'') (\<lambda>metadata.
      bindE (dict_get metadata ''name'' (YStr ''viewer-deployment'')) (\<lambda>original_deployment_name.
      bindE (py_format original_deployment_name) (\<lambda>name_text.
      let new_deployment_name = name_text @ instance_suffix in
      bindE (get_path [''spec'', ''selector'', ''matchLabels''] current_deployment) (\<lambda>match_labels.
      bindE (dict_get match_labels ''component'' (YStr ''viewer'')) (\<lambda>original_component_label.
      bindE (py_format original_component_label) (\<lambda>label_text.
      let new_component_label = label_text @ instance_suffix in
      bindE (assign [''metadata''] ''name'' (YStr new_deployment_name) current_deployment) (\<lambda>d1.
      bindE (set_default [''metadata''] ''labels'' (YDict []) d1) (\<lambda>d2.
      bindE (assign [''metadata'', ''labels''] ''deployment-instance'' (YStr (str_nat i)) d2) (\<lambda>d3.
      bindE (assign [''spec''] ''replicas'' (YInt replicas) d3) (\<lambda>d4.
      bindE (assign [''spec'', ''selector'', ''matchLabels''] ''component''
               (YStr new_component_label) d4) (\<lambda>d5.
      bindE (assign [''spec'', ''selector'', ''matchLabels''] ''deployment-instance''
               (YStr (str_nat i)) d5) (\<lambda>d6.
      bindE (set_default [''spec'', ''template'', ''metadata''] ''labels'' (YDict []) d6) (\<lambda>d7.
      bindE (assign [''spec'', ''template'', ''metadata'', ''labels''] ''component''
               (YStr new_component_label) d7) (\<lambda>d8.
      bindE (assign [''spec'', ''template'', ''metadata'', ''labels''] ''deployment-instance''
               (YStr (str_nat i)) d8) (\<lambda>d9.
      bindE (get_path containers_path d9) (\<lambda>containers.
      bindE (py_iter containers) (\<lambda>items.
      bindE (inject_env items i stream_url vpn_config_name) (\<lambda>(items', container_updated).
      bindE (case containers of
               YList _ \<Rightarrow> assign [''spec'', ''template'', ''spec''] ''containers'' (YList items') d9
             | _ \<Rightarrow> Inr d9) (\<lambda>d10.
      Inr (d10, new_deployment_name, new_component_label, container_updated)))))))))))))))))))))"

subsection \<open>The endpoint (lines 140 to 148)\<close>

definition materialize_service :: "yaml \<Rightarrow> nat \<Rightarrow> string \<Rightarrow> failure + (yaml \<times> string)" where
  "materialize_service base_service_template i new_component_label =
     (let instance_suffix = ''-'' @ str_nat i;
          current_service = base_service_template
      in
      bindE (subscript current_service ''metadata'') (\<lambda>metadata.
      bindE (dict_get metadata ''name'' (YStr ''viewer-service'')) (\<lambda>original_service_name.
      bindE (py_format original_service_name) (\<lambda>name_text.
      let new_service_name = name_text @ instance_suffix in
      bindE (assign [''metadata''] ''name'' (YStr new_service_name) current_service) (\<lambda>s1.
      bindE (set_default [''metadata''] ''labels'' (YDict []) s1) (\<lambda>s2.
      bindE (assign [''metadata'', ''labels''] ''deployment-instance'' (YStr (str_nat i)) s2) (\<lambda>s3.
      bindE (assign [''spec'', ''selector''] ''component'' (YStr new_component_label) s3) (\<lambda>s4.
      bindE (assign [''spec'', ''selector''] ''deployment-instance'' (YStr (str_nat i)) s4) (\<lambda>s5.
      Inr (s5, new_service_name))))))))))"

section \<open>The orchestrator and what the run prints\<close>

text \<open>
  The three calls the program makes to change the cluster, with their arguments in the
  order namespace, body (a replace has the name first). A call returns, or raises an
  \<^verbatim>\<open>ApiException\<close> with the HTTP status of the answer. The orchestrator is any
  function from a call and its own state to an answer and a new state.
\<close>

datatype api_call =
    CreateNamespacedDeployment string yaml
  | ReplaceNamespacedDeployment string string yaml
  | CreateNamespacedService string yaml

datatype api_result = Returned | ApiException nat

type_synonym 's orchestrator = "api_call \<Rightarrow> 's \<Rightarrow> api_result \<times> 's"

text \<open>The lines the loop prints, with the values they show.\<close>

datatype message =
    DeploymentCreated string string
  | DeploymentReplaced string string
  | ErrorReplacingDeployment string nat
  | ErrorCreatingDeployment string nat
  | ServiceCreated string
  | ServiceAlreadyExists string
  | ErrorCreatingService string nat
  | ContainerNotFound string
  | Separator
  | SuccessfullyProcessed int

datatype event = Call api_call | Print message

text \<open>Lines 122 and 123.\<close>

definition container_warning :: "bool \<Rightarrow> string \<Rightarrow> event list" where
  "container_warning container_updated new_deployment_name =
     (if \<not> container_updated then [Print (ContainerNotFound new_deployment_name)] else [])"

text \<open>Lines 125 to 136.\<close>

definition apply_deployment ::
  "'s orchestrator \<Rightarrow> string \<Rightarrow> string \<Rightarrow> string \<Rightarrow> yaml \<Rightarrow> 's \<Rightarrow> event list \<times> 's" where
  "apply_deployment orch ns new_deployment_name vpn_config_name current_deployment s =
     (case orch (CreateNamespacedDeployment ns current_deployment) s of
        (Returned, s1) \<Rightarrow>
          ([Call (CreateNamespacedDeployment ns current_deployment),
            Print (DeploymentCreated new_deployment_name vpn_config_name)], s1)
      | (ApiException status, s1) \<Rightarrow>
          if status = 409 then
            (case orch (ReplaceNamespacedDeployment new_deployment_name ns current_deployment) s1 of
               (Returned, s2) \<Rightarrow>
                 ([Call (CreateNamespacedDeployment ns current_deployment),
                   Call (ReplaceNamespacedDeployment new_deployment_name ns current_deployment),
                   Print (DeploymentReplaced new_deployment_name vpn_config_name)], s2)
             | (ApiException status', s2) \<Rightarrow>
                 ([Call (CreateNamespacedDeployment ns current_deployment),
                   Call (ReplaceNamespacedDeployment new_deployment_name ns current_deployment),
                   Print (ErrorReplacingDeployment new_deployment_name status')], s2))
          else
            ([Call (CreateNamespacedDeployment ns current_deployment),
              Print (ErrorCreatingDeployment new_deployment_name status)], s1))"

text \<open>Lines 150 to 160.\<close>

definition apply_service ::
  "'s orchestrator \<Rightarrow> string \<Rightarrow> string \<Rightarrow> yaml \<Rightarrow> 's \<Rightarrow> event list \<times> 's" where
  "apply_service orch ns new_service_name current_service s =
     (case orch (CreateNamespacedService ns current_service) s of
        (Returned, s1) \<Rightarrow>
          ([Call (CreateNamespacedService ns current_service),
            Print (ServiceCreated new_service_name)], s1)
      | (ApiException status, s1) \<Rightarrow>
          if status = 409 then
            ([Call (CreateNamespacedService ns current_service),
              Print (ServiceAlreadyExists new_service_name)], s1)
          else
            ([Call (CreateNamespacedService ns current_service),
              Print (ErrorCreatingService new_service_name status)], s1))"

section \<open>The run: \<^verbatim>\<open>main\<close>\<close>

text \<open>
  The arguments the program reads, and what it finds outside itself: whether a
  configuration of the client loads (lines 47 to 54), the documents of the template file,
  and the answer to the read of the ConfigMap.
\<close>

record args =
  stream_url :: string
  num_deployments :: int
  namespace :: string
  replicas_per_deployment :: int

record surroundings =
  kube_config :: bool
  incluster_config :: bool
  templates :: "yaml list"
  config_map :: config_map_read

text \<open>
  \<^verbatim>\<open>next((tpl for tpl in templates if tpl and tpl.get("kind") == kind), None)\<close>: the
  documents after the first match are not looked at.
\<close>

fun find_kind :: "string \<Rightarrow> yaml list \<Rightarrow> failure + yaml option" where
  "find_kind kind [] = Inr None"
| "find_kind kind (tpl # tpls) =
     bindE (truthy tpl) (\<lambda>t.
       if \<not> t then find_kind kind tpls
       else bindE (dict_get tpl ''kind'' YNull) (\<lambda>k.
         if k = YStr kind then Inr (Some tpl) else find_kind kind tpls))"

text \<open>\<^verbatim>\<open>xs[:n]\<close>: a negative \<open>n\<close> counts from the end.\<close>

definition slice_to :: "int \<Rightarrow> 'a list \<Rightarrow> 'a list" where
  "slice_to n xs = (if 0 \<le> n then take (nat n) xs else take (length xs - nat (- n)) xs)"

text \<open>\<^verbatim>\<open>xs[i]\<close> for \<open>i\<close> of a \<^verbatim>\<open>range\<close>\<close>

definition index :: "'a list \<Rightarrow> nat \<Rightarrow> failure + 'a" where
  "index xs i = (if i < length xs then Inr (xs ! i) else Inl (Uncaught IndexError))"

text \<open>
  Lines 47 to 78: the base templates and the selected tokens, or the failure that ends
  the run before the loop.
\<close>

definition prepare :: "args \<Rightarrow> surroundings \<Rightarrow> failure + (yaml \<times> yaml option \<times> string list)" where
  "prepare a w =
     (if \<not> kube_config w \<and> \<not> incluster_config w then Inl KubeConfigError
      else
        bindE (find_kind ''Deployment'' (templates w)) (\<lambda>base_deployment_template.
        bindE (find_kind ''Service'' (templates w)) (\<lambda>base_service_template.
        case base_deployment_template of
          None \<Rightarrow> Inl DeploymentNotFound
        | Some deployment \<Rightarrow>
            bindE (get_available_vpn_configs (config_map w)) (\<lambda>available_vpns.
            if available_vpns = [] then Inl NoVpnConfigs
            else if num_deployments a > int (length available_vpns)
              then Inl (NotEnoughVpns (num_deployments a) (length available_vpns))
            else Inr (deployment, base_service_template,
                      slice_to (num_deployments a) available_vpns)))))"

text \<open>
  Lines 81 to 162, the body of the loop for the index \<open>i\<close>: the failure that ends the
  run, if one is raised, the calls made and lines printed, and the orchestrator's state.
\<close>

definition instance_step ::
  "'s orchestrator \<Rightarrow> args \<Rightarrow> yaml \<Rightarrow> yaml option \<Rightarrow> string list \<Rightarrow> nat \<Rightarrow> 's
     \<Rightarrow> failure option \<times> event list \<times> 's" where
  "instance_step orch a base_deployment_template base_service_template selected_vpns i s =
     (case index selected_vpns i of
        Inl e \<Rightarrow> (Some e, [], s)
      | Inr vpn_config_name \<Rightarrow>
     (case materialize_deployment base_deployment_template i vpn_config_name
             (stream_url a) (replicas_per_deployment a) of
        Inl e \<Rightarrow> (Some e, [], s)
      | Inr (current_deployment, new_deployment_name, new_component_label, container_updated) \<Rightarrow>
          let warning = container_warning container_updated new_deployment_name;
              (applied, s1) = apply_deployment orch (namespace a) new_deployment_name
                                vpn_config_name current_deployment s
          in
          (case base_service_template of
             None \<Rightarrow> (None, warning @ applied @ [Print Separator], s1)
           | Some service \<Rightarrow>
               (case materialize_service service i new_component_label of
                  Inl e \<Rightarrow> (Some e, warning @ applied, s1)
                | Inr (current_service, new_service_name) \<Rightarrow>
                    let (applied', s2) = apply_service orch (namespace a) new_service_name
                                           current_service s1
                    in (None, warning @ applied @ applied' @ [Print Separator], s2)))))"

text \<open>Line 80: the loop over the indices.\<close>

fun deploy_loop ::
  "'s orchestrator \<Rightarrow> args \<Rightarrow> yaml \<Rightarrow> yaml option \<Rightarrow> string list \<Rightarrow> nat list \<Rightarrow> 's
     \<Rightarrow> failure option \<times> event list \<times> 's" where
  "deploy_loop orch a base_deployment_template base_service_template selected_vpns [] s =
     (None, [], s)"
| "deploy_loop orch a base_deployment_template base_service_template selected_vpns (i # rest) s =
     (case instance_step orch a base_deployment_template base_service_template selected_vpns i s of
        (Some e, events, s1) \<Rightarrow> (Some e, events, s1)
      | (None, events, s1) \<Rightarrow>
          (case deploy_loop orch a base_deployment_template base_service_template
                  selected_vpns rest s1 of
             (r, events', s2) \<Rightarrow> (r, events @ events', s2)))"

text \<open>
  The run ends with a failure (exit status 1) or completes (exit status 0); either way it
  has made calls and printed lines, and the orchestrator is in a state.
\<close>

definition main ::
  "'s orchestrator \<Rightarrow> args \<Rightarrow> surroundings \<Rightarrow> 's \<Rightarrow> failure option \<times> event list \<times> 's" where
  "main orch a w s =
     (case prepare a w of
        Inl e \<Rightarrow> (Some e, [], s)
      | Inr (base_deployment_template, base_service_template, selected_vpns) \<Rightarrow>
          (case deploy_loop orch a base_deployment_template base_service_template selected_vpns
                  [0 ..< nat (num_deployments a)] s of
             (Some e, events, s1) \<Rightarrow> (Some e, events, s1)
           | (None, events, s1) \<Rightarrow>
               (None, events @ [Print (SuccessfullyProcessed (num_deployments a))], s1)))"

definition exit_status :: "failure option \<times> event list \<times> 's \<Rightarrow> nat" where
  "exit_status r = (case fst r of None \<Rightarrow> 0 | Some _ \<Rightarrow> 1)"

text \<open>The calls among the events of a run.\<close>

definition calls :: "event list \<Rightarrow> api_call list" where
  "calls events = concat (map (\<lambda>e. case e of Call c \<Rightarrow> [c] | Print _ \<Rightarrow> []) events)"

text \<open>The lines printed among the events of a run.\<close>

definition prints :: "event list \<Rightarrow> message list" where
  "prints events = concat (map (\<lambda>e. case e of Call _ \<Rightarrow> [] | Print m \<Rightarrow> [m]) events)"

section \<open>Reading the objects the run sends\<close>




section \<open>Reading the environment of a container\<close>


definition entry_key :: "yaml \<Rightarrow> failure + key" where
  "entry_key ev = bindE (subscript ev ''name'') dict_key"





section \<open>Reading a run\<close>

text \<open>The deployments the run asks the orchestrator to create, in the order of the calls.\<close>

definition created_deployments :: "event list \<Rightarrow> yaml list" where
  "created_deployments events =
     concat (map (\<lambda>e. case e of Call (CreateNamespacedDeployment ns b) \<Rightarrow> [b] | _ \<Rightarrow> []) events)"





section \<open>The objects in memory\<close>

text \<open>
  For what the program changes and what it leaves alone, the documents are modelled as
  Python has them: dicts and lists are objects in memory, a value is a scalar or a reference
  to an object, and an assignment \<^verbatim>\<open>x[k] = v\<close> changes the object \<open>x\<close> refers to, for
  everyone who holds a reference to it. The memory is the list of its objects, an address
  is a position in it, and a new object goes to the end.
\<close>

datatype pyval = PNull | PBool bool | PInt int | PFloat string | PStr string | PRef nat

datatype pyobj = PDict "(string \<times> pyval) list" | PList "pyval list"

type_synonym heap = "pyobj list"

text \<open>
  A step reads and changes the memory and returns a value or raises; the memory it leaves
  is there either way.
\<close>

type_synonym 'a step = "heap \<Rightarrow> (failure + 'a) \<times> heap"

definition returnH :: "'a \<Rightarrow> 'a step" where
  "returnH x = (\<lambda>h. (Inr x, h))"

definition raiseH :: "failure \<Rightarrow> 'a step" where
  "raiseH e = (\<lambda>h. (Inl e, h))"

definition pureH :: "failure + 'a \<Rightarrow> 'a step" where
  "pureH r = (\<lambda>h. (r, h))"

definition bindH :: "'a step \<Rightarrow> ('a \<Rightarrow> 'b step) \<Rightarrow> 'b step" where
  "bindH m f = (\<lambda>h. case m h of (Inl e, h') \<Rightarrow> (Inl e, h') | (Inr x, h') \<Rightarrow> f x h')"

text \<open>
  The object a value refers to (none for a scalar), a new object, and the replacement of
  the object at an address. A reference to no object does not occur in Python; the model
  stops there.
\<close>

definition deref :: "pyval \<Rightarrow> pyobj option step" where
  "deref v = (\<lambda>h. case v of
                 PRef a \<Rightarrow> if a < length h then (Inr (Some (h ! a)), h) else (Inl Unmodelled, h)
               | _ \<Rightarrow> (Inr None, h))"

definition alloc :: "pyobj \<Rightarrow> pyval step" where
  "alloc ob = (\<lambda>h. (Inr (PRef (length h)), h @ [ob]))"

definition store :: "nat \<Rightarrow> pyobj \<Rightarrow> unit step" where
  "store a ob = (\<lambda>h. (Inr (), h[a := ob]))"

text \<open>\<^verbatim>\<open>x[k]\<close>, \<^verbatim>\<open>x.get(k, default)\<close>, \<^verbatim>\<open>x[k] = v\<close> and \<^verbatim>\<open>x.setdefault(k, {})\<close> (whose
  \<^verbatim>\<open>{}\<close> is a new dict, made before the call) on the object \<open>x\<close> refers to.\<close>

definition h_subscript :: "pyval \<Rightarrow> string \<Rightarrow> pyval step" where
  "h_subscript x k =
     bindH (deref x) (\<lambda>ob. case ob of
        Some (PDict d) \<Rightarrow>
          (case map_of d k of Some v \<Rightarrow> returnH v | None \<Rightarrow> raiseH (Uncaught KeyError))
      | _ \<Rightarrow> raiseH (Uncaught TypeError))"

definition h_get :: "pyval \<Rightarrow> string \<Rightarrow> pyobj \<Rightarrow> pyval step" where
  "h_get x k dflt =
     bindH (deref x) (\<lambda>ob. case ob of
        Some (PDict d) \<Rightarrow>
          bindH (alloc dflt) (\<lambda>dv. returnH (case map_of d k of Some v \<Rightarrow> v | None \<Rightarrow> dv))
      | _ \<Rightarrow> raiseH (Uncaught AttributeError))"

definition h_get_scalar :: "pyval \<Rightarrow> string \<Rightarrow> pyval \<Rightarrow> pyval step" where
  "h_get_scalar x k dflt =
     bindH (deref x) (\<lambda>ob. case ob of
        Some (PDict d) \<Rightarrow> returnH (case map_of d k of Some v \<Rightarrow> v | None \<Rightarrow> dflt)
      | _ \<Rightarrow> raiseH (Uncaught AttributeError))"

definition h_set_item :: "pyval \<Rightarrow> string \<Rightarrow> pyval \<Rightarrow> unit step" where
  "h_set_item x k v =
     bindH (deref x) (\<lambda>ob. case (x, ob) of
        (PRef a, Some (PDict d)) \<Rightarrow> store a (PDict (AList.update k v d))
      | _ \<Rightarrow> raiseH (Uncaught TypeError))"

definition h_setdefault :: "pyval \<Rightarrow> string \<Rightarrow> unit step" where
  "h_setdefault x k =
     bindH (deref x) (\<lambda>ob. case (x, ob) of
        (PRef a, Some (PDict d)) \<Rightarrow>
          bindH (alloc (PDict [])) (\<lambda>dv.
            case map_of d k of
              Some _ \<Rightarrow> returnH ()
            | None \<Rightarrow> store a (PDict (AList.update k dv d)))
      | _ \<Rightarrow> raiseH (Uncaught AttributeError))"

fun h_get_path :: "pyval \<Rightarrow> string list \<Rightarrow> pyval step" where
  "h_get_path x [] = returnH x"
| "h_get_path x (k # ks) = bindH (h_subscript x k) (\<lambda>c. h_get_path c ks)"

definition h_assign :: "pyval \<Rightarrow> string list \<Rightarrow> string \<Rightarrow> pyval \<Rightarrow> unit step" where
  "h_assign root p k v = bindH (h_get_path root p) (\<lambda>d. h_set_item d k v)"

definition h_set_default :: "pyval \<Rightarrow> string list \<Rightarrow> string \<Rightarrow> unit step" where
  "h_set_default root p k = bindH (h_get_path root p) (\<lambda>d. h_setdefault d k)"

definition h_iter :: "pyval \<Rightarrow> pyval list step" where
  "h_iter x =
     bindH (deref x) (\<lambda>ob. case ob of
        Some (PList xs) \<Rightarrow> returnH xs
      | Some (PDict d) \<Rightarrow> returnH (map (\<lambda>(k, v). PStr k) d)
      | None \<Rightarrow> (case x of
                   PStr s \<Rightarrow> returnH (map (\<lambda>c. PStr [c]) s)
                 | _ \<Rightarrow> raiseH (Uncaught TypeError)))"

fun h_format :: "pyval \<Rightarrow> failure + string" where
  "h_format (PStr s) = Inr s"
| "h_format (PInt i) = Inr (str_int i)"
| "h_format (PBool b) = Inr (if b then ''True'' else ''False'')"
| "h_format PNull = Inr ''None''"
| "h_format (PFloat _) = Inl Unmodelled"
| "h_format (PRef _) = Inl Unmodelled"

fun h_key :: "pyval \<Rightarrow> failure + key" where
  "h_key PNull = Inr KNone"
| "h_key (PBool b) = Inr (KNum (if b then 1 else 0))"
| "h_key (PInt i) = Inr (KNum i)"
| "h_key (PStr s) = Inr (KStr s)"
| "h_key (PFloat _) = Inl Unmodelled"
| "h_key (PRef _) = Inl (Uncaught TypeError)"

text \<open>
  \<^verbatim>\<open>copy.deepcopy\<close>: a scalar is returned as it is; for a list or a dict a new object is
  made and noted in the memo under the address of the original, then filled with the
  copies of the members, made in order with the same memo; an original met again gives
  the copy noted for it. Python runs out of stack on a nesting that is too deep; the
  depth it allows is the first argument.
\<close>

fun deepcopy :: "nat \<Rightarrow> (nat \<times> nat) list \<Rightarrow> pyval \<Rightarrow> (pyval \<times> (nat \<times> nat) list) step"
  and deepcopy_all ::
    "nat \<Rightarrow> (nat \<times> nat) list \<Rightarrow> pyval list \<Rightarrow> (pyval list \<times> (nat \<times> nat) list) step" where
  "deepcopy 0 memo v = raiseH (Uncaught RecursionError)"
| "deepcopy (Suc n) memo v =
     (case v of
        PRef a \<Rightarrow>
          (case map_of memo a of
             Some b \<Rightarrow> returnH (PRef b, memo)
           | None \<Rightarrow>
               bindH (deref v) (\<lambda>ob.
               case ob of
                 Some (PList xs) \<Rightarrow>
                   bindH (alloc (PList [])) (\<lambda>y.
                   case y of
                     PRef b \<Rightarrow>
                       bindH (deepcopy_all n ((a, b) # memo) xs) (\<lambda>(ys, memo').
                       bindH (store b (PList ys)) (\<lambda>_.
                       returnH (y, memo')))
                   | _ \<Rightarrow> raiseH Unmodelled)
               | Some (PDict d) \<Rightarrow>
                   bindH (alloc (PDict [])) (\<lambda>y.
                   case y of
                     PRef b \<Rightarrow>
                       bindH (deepcopy_all n ((a, b) # memo) (map snd d)) (\<lambda>(ys, memo').
                       bindH (store b (PDict (zip (map fst d) ys))) (\<lambda>_.
                       returnH (y, memo')))
                   | _ \<Rightarrow> raiseH Unmodelled)
               | None \<Rightarrow> raiseH Unmodelled))
      | _ \<Rightarrow> returnH (v, memo))"
| "deepcopy_all n memo [] = returnH ([], memo)"
| "deepcopy_all n memo (x # xs) =
     bindH (deepcopy n memo x) (\<lambda>(y, memo').
     bindH (deepcopy_all n memo' xs) (\<lambda>(ys, memo'').
     returnH (y # ys, memo'')))"

section \<open>The loop on the objects in memory\<close>

text \<open>Lines 110 to 118 for the container \<open>container\<close>: the new list for its \<^verbatim>\<open>env\<close>.\<close>

fun h_env_map_of :: "(key \<times> pyval) list \<Rightarrow> pyval list \<Rightarrow> (key \<times> pyval) list step" where
  "h_env_map_of acc [] = returnH acc"
| "h_env_map_of acc (ev # evs) =
     bindH (h_subscript ev ''name'') (\<lambda>n.
     bindH (pureH (h_key n)) (\<lambda>k.
     h_env_map_of (AList.update k ev acc) evs))"

definition h_env_var :: "string \<Rightarrow> string \<Rightarrow> pyval step" where
  "h_env_var name val = alloc (PDict [(''name'', PStr name), (''value'', PStr val)])"

definition h_merged_env :: "pyval \<Rightarrow> nat \<Rightarrow> string \<Rightarrow> string \<Rightarrow> pyval step" where
  "h_merged_env container i stream_locator vpn_config_name =
     bindH (h_get container ''env'' (PList [])) (\<lambda>env_vars.
     bindH (h_iter env_vars) (\<lambda>evs.
     bindH (h_env_map_of [] evs) (\<lambda>env_map.
     bindH (h_env_var ''BOX_NAME'' (''box-'' @ str_nat i)) (\<lambda>box_name.
     bindH (h_env_var ''STREAM_URL'' stream_locator) (\<lambda>url.
     bindH (h_env_var ''VPN_CONFIG'' vpn_config_name) (\<lambda>vpn.
     alloc (PList (map snd
       (AList.update (KStr ''VPN_CONFIG'') vpn
       (AList.update (KStr ''STREAM_URL'') url
       (AList.update (KStr ''BOX_NAME'') box_name env_map)))))))))))"

text \<open>Lines 108 to 120: the loop over the containers; the result is \<^verbatim>\<open>container_updated\<close>.\<close>

fun h_inject_env :: "pyval list \<Rightarrow> nat \<Rightarrow> string \<Rightarrow> string \<Rightarrow> bool step" where
  "h_inject_env [] i stream_locator vpn_config_name = returnH False"
| "h_inject_env (container # rest) i stream_locator vpn_config_name =
     bindH (h_subscript container ''name'') (\<lambda>n.
       if n = PStr ''viewer-box'' then
         bindH (h_merged_env container i stream_locator vpn_config_name) (\<lambda>env.
         bindH (h_set_item container ''env'' env) (\<lambda>_.
         returnH True))
       else h_inject_env rest i stream_locator vpn_config_name)"

text \<open>
  Lines 86 to 120 on the template at \<open>base_deployment_template\<close>: the copy, and every
  later statement through the copy.
\<close>

definition h_materialize_deployment ::
  "nat \<Rightarrow> pyval \<Rightarrow> nat \<Rightarrow> string \<Rightarrow> string \<Rightarrow> int \<Rightarrow> (pyval \<times> string \<times> string \<times> bool) step" where
  "h_materialize_deployment depth base_deployment_template i vpn_config_name stream_locator replicas =
     (let instance_suffix = ''-'' @ str_nat i in
      bindH (deepcopy depth [] base_deployment_template) (\<lambda>(current_deployment, memo).
      bindH (h_subscript current_deployment ''metadata'') (\<lambda>metadata.
      bindH (h_get_scalar metadata ''name'' (PStr ''viewer-deployment'')) (\<lambda>original_deployment_name.
      bindH (pureH (h_format original_deployment_name)) (\<lambda>name_text.
      let new_deployment_name = name_text @ instance_suffix in
      bindH (h_get_path current_deployment [''spec'', ''selector'', ''matchLabels'']) (\<lambda>match_labels.
      bindH (h_get_scalar match_labels ''component'' (PStr ''viewer'')) (\<lambda>original_component_label.
      bindH (pureH (h_format original_component_label)) (\<lambda>label_text.
      let new_component_label = label_text @ instance_suffix in
      bindH (h_assign current_deployment [''metadata''] ''name'' (PStr new_deployment_name)) (\<lambda>_.
      bindH (h_set_default current_deployment [''metadata''] ''labels'') (\<lambda>_.
      bindH (h_assign current_deployment [''metadata'', ''labels''] ''deployment-instance''
               (PStr (str_nat i))) (\<lambda>_.
      bindH (h_assign current_deployment [''spec''] ''replicas'' (PInt replicas)) (\<lambda>_.
      bindH (h_assign current_deployment [''spec'', ''selector'', ''matchLabels''] ''component''
               (PStr new_component_label)) (\<lambda>_.
      bindH (h_assign current_deployment [''spec'', ''selector'', ''matchLabels'']
               ''deployment-instance'' (PStr (str_nat i))) (\<lambda>_.
      bindH (h_set_default current_deployment [''spec'', ''template'', ''metadata''] ''labels'') (\<lambda>_.
      bindH (h_assign current_deployment [''spec'', ''template'', ''metadata'', ''labels'']
               ''component'' (PStr new_component_label)) (\<lambda>_.
      bindH (h_assign current_deployment [''spec'', ''template'', ''metadata'', ''labels'']
               ''deployment-instance'' (PStr (str_nat i))) (\<lambda>_.
      bindH (h_get_path current_deployment containers_path) (\<lambda>containers.
      bindH (h_iter containers) (\<lambda>items.
      bindH (h_inject_env items i stream_locator vpn_config_name) (\<lambda>container_updated.
      returnH (current_deployment, new_deployment_name, new_component_label,
               container_updated)))))))))))))))))))))"

text \<open>Lines 140 to 148 on the template at \<open>base_service_template\<close>.\<close>

definition h_materialize_service :: "nat \<Rightarrow> pyval \<Rightarrow> nat \<Rightarrow> string \<Rightarrow> (pyval \<times> string) step" where
  "h_materialize_service depth base_service_template i new_component_label =
     (let instance_suffix = ''-'' @ str_nat i in
      bindH (deepcopy depth [] base_service_template) (\<lambda>(current_service, memo).
      bindH (h_subscript current_service ''metadata'') (\<lambda>metadata.
      bindH (h_get_scalar metadata ''name'' (PStr ''viewer-service'')) (\<lambda>original_service_name.
      bindH (pureH (h_format original_service_name)) (\<lambda>name_text.
      let new_service_name = name_text @ instance_suffix in
      bindH (h_assign current_service [''metadata''] ''name'' (PStr new_service_name)) (\<lambda>_.
      bindH (h_set_default current_service [''metadata''] ''labels'') (\<lambda>_.
      bindH (h_assign current_service [''metadata'', ''labels''] ''deployment-instance''
               (PStr (str_nat i))) (\<lambda>_.
      bindH (h_assign current_service [''spec'', ''selector''] ''component''
               (PStr new_component_label)) (\<lambda>_.
      bindH (h_assign current_service [''spec'', ''selector''] ''deployment-instance''
               (PStr (str_nat i))) (\<lambda>_.
      returnH (current_service, new_service_name)))))))))))"

text \<open>
  Lines 81 to 162 and line 80. The calls to the orchestrator are between the statements
  modelled here; the client writes the object it is given out as text and changes no
  object, and what the orchestrator answers changes no object either, so the calls are
  left out. The result is, for each index, the deployment and the service made for it.
\<close>

definition h_instance_step ::
  "nat \<Rightarrow> args \<Rightarrow> pyval \<Rightarrow> pyval option \<Rightarrow> string list \<Rightarrow> nat \<Rightarrow> (pyval \<times> pyval option) step" where
  "h_instance_step depth a base_deployment_template base_service_template selected_vpns i =
     bindH (pureH (index selected_vpns i)) (\<lambda>vpn_config_name.
     bindH (h_materialize_deployment depth base_deployment_template i vpn_config_name
              (stream_url a) (replicas_per_deployment a))
       (\<lambda>(current_deployment, new_deployment_name, new_component_label, container_updated).
     case base_service_template of
       None \<Rightarrow> returnH (current_deployment, None)
     | Some service \<Rightarrow>
         bindH (h_materialize_service depth service i new_component_label)
           (\<lambda>(current_service, new_service_name).
         returnH (current_deployment, Some current_service))))"

fun h_deploy_loop ::
  "nat \<Rightarrow> args \<Rightarrow> pyval \<Rightarrow> pyval option \<Rightarrow> string list \<Rightarrow> nat list
     \<Rightarrow> (pyval \<times> pyval option) list step" where
  "h_deploy_loop depth a base_deployment_template base_service_template selected_vpns [] =
     returnH []"
| "h_deploy_loop depth a base_deployment_template base_service_template selected_vpns (i # rest) =
     bindH (h_instance_step depth a base_deployment_template base_service_template
              selected_vpns i) (\<lambda>made.
     bindH (h_deploy_loop depth a base_deployment_template base_service_template
              selected_vpns rest) (\<lambda>mades.
     returnH (made # mades)))"

section \<open>Documents and objects\<close>

text \<open>
  The objects the loader makes for a document (the members first), and the document an
  object is written out as, to a given depth.
\<close>

fun objects_of :: "yaml \<Rightarrow> heap \<Rightarrow> pyval \<times> heap"
  and objects_of_all :: "yaml list \<Rightarrow> heap \<Rightarrow> pyval list \<times> heap" where
  "objects_of YNull h = (PNull, h)"
| "objects_of (YBool b) h = (PBool b, h)"
| "objects_of (YInt i) h = (PInt i, h)"
| "objects_of (YFloat f) h = (PFloat f, h)"
| "objects_of (YStr s) h = (PStr s, h)"
| "objects_of (YList xs) h =
     (case objects_of_all xs h of (vs, h') \<Rightarrow> (PRef (length h'), h' @ [PList vs]))"
| "objects_of (YDict d) h =
     (case objects_of_all (map snd d) h of
        (vs, h') \<Rightarrow> (PRef (length h'), h' @ [PDict (zip (map fst d) vs)]))"
| "objects_of_all [] h = ([], h)"
| "objects_of_all (x # xs) h =
     (case objects_of x h of (v, h') \<Rightarrow>
        (case objects_of_all xs h' of (vs, h'') \<Rightarrow> (v # vs, h'')))"

fun document_of :: "nat \<Rightarrow> heap \<Rightarrow> pyval \<Rightarrow> yaml option"
  and documents_of :: "nat \<Rightarrow> heap \<Rightarrow> pyval list \<Rightarrow> yaml list option" where
  "document_of 0 h v = None"
| "document_of (Suc n) h v =
     (case v of
        PNull \<Rightarrow> Some YNull
      | PBool b \<Rightarrow> Some (YBool b)
      | PInt i \<Rightarrow> Some (YInt i)
      | PFloat f \<Rightarrow> Some (YFloat f)
      | PStr s \<Rightarrow> Some (YStr s)
      | PRef a \<Rightarrow>
          if a < length h then
            (case h ! a of
               PList xs \<Rightarrow> map_option YList (documents_of n h xs)
             | PDict d \<Rightarrow>
                 map_option (\<lambda>ys. YDict (zip (map fst d) ys)) (documents_of n h (map snd d)))
          else None)"
| "documents_of n h [] = Some []"
| "documents_of n h (x # xs) =
     (case document_of n h x of
        None \<Rightarrow> None
      | Some y \<Rightarrow> map_option ((#) y) (documents_of n h xs))"

section \<open>What a step leaves alone\<close>

text \<open>
  Relative to the memory \<open>h0\<close> after loading: a value is new when it is a scalar or
  refers to an object made later, an object is new when all its members are, and a memory
  \<open>h\<close> is intact when the objects of \<open>h0\<close> are in it as they were and every object
  made later is new. A step keeps \<open>h0\<close> when from a intact memory it leaves a intact
  memory, whether it returns or raises, and a value it returns has the stated property.
\<close>

definition members :: "pyobj \<Rightarrow> pyval list" where
  "members ob = (case ob of PDict d \<Rightarrow> map snd d | PList xs \<Rightarrow> xs)"

definition new_ref :: "heap \<Rightarrow> pyval \<Rightarrow> bool" where
  "new_ref h0 v = (case v of PRef a \<Rightarrow> length h0 \<le> a | _ \<Rightarrow> True)"

definition new_obj :: "heap \<Rightarrow> pyobj \<Rightarrow> bool" where
  "new_obj h0 ob = list_all (new_ref h0) (members ob)"

definition intact :: "heap \<Rightarrow> heap \<Rightarrow> bool" where
  "intact h0 h \<longleftrightarrow>
     take (length h0) h = h0 \<and> list_all (new_obj h0) (drop (length h0) h)"

definition keeps :: "heap \<Rightarrow> 'a step \<Rightarrow> ('a \<Rightarrow> bool) \<Rightarrow> bool" where
  "keeps h0 m Q \<longleftrightarrow>
     (\<forall>h r h'. intact h0 h \<longrightarrow> m h = (r, h') \<longrightarrow> intact h0 h' \<and> (\<forall>x. r = Inr x \<longrightarrow> Q x))"

text \<open>
  A value is within \<open>h0\<close> when it is a scalar or refers to an object of \<open>h0\<close>, and
  \<open>h0\<close> is closed when the members of its objects are within it.
\<close>

definition within :: "heap \<Rightarrow> pyval \<Rightarrow> bool" where
  "within h0 v = (case v of PRef a \<Rightarrow> a < length h0 | _ \<Rightarrow> True)"

definition closed :: "heap \<Rightarrow> bool" where
  "closed h0 = list_all (\<lambda>ob. list_all (within h0) (members ob)) h0"

definition memo_new :: "heap \<Rightarrow> (nat \<times> nat) list \<Rightarrow> bool" where
  "memo_new h0 memo = list_all (\<lambda>(a, b). length h0 \<le> b) memo"

section \<open>Inputs for the examples\<close>

text \<open>
  An orchestrator that answers from a script: its state is the list of answers still to
  give, and with the script used up every call returns.
\<close>

fun scripted :: "api_result list orchestrator" where
  "scripted c [] = (Returned, [])"
| "scripted c (r # rs) = (r, rs)"

text \<open>A workload template with a sidecar and two containers named \<^verbatim>\<open>viewer-box\<close>.\<close>

definition example_sidecar :: yaml where
  "example_sidecar = YDict [(''name'', YStr ''sidecar''), (''image'', YStr ''proxy:1'')]"

definition example_viewer_box :: yaml where
  "example_viewer_box =
     YDict [(''name'', YStr ''viewer-box''), (''image'', YStr ''viewer:1''),
            (''env'', YList [env_var ''STREAM_URL'' ''old'', env_var ''TZ'' ''UTC''])]"

definition example_second_viewer_box :: yaml where
  "example_second_viewer_box =
     YDict [(''name'', YStr ''viewer-box''), (''env'', YList [env_var ''TZ'' ''CET''])]"

definition example_deployment :: yaml where
  "example_deployment =
     YDict [(''kind'', YStr ''Deployment''),
       (''metadata'', YDict [(''name'', YStr ''viewer'')]),
       (''spec'', YDict [(''replicas'', YInt 1),
          (''selector'', YDict [(''matchLabels'', YDict [(''component'', YStr ''viewer'')])]),
          (''template'', YDict [
             (''metadata'', YDict [(''labels'', YDict [(''component'', YStr ''viewer'')])]),
             (''spec'', YDict [(''containers'',
                 YList [example_sidecar, example_viewer_box, example_second_viewer_box])])])])]"


definition example_service :: yaml where
  "example_service =
     YDict [(''kind'', YStr ''Service''),
       (''metadata'', YDict [(''name'', YStr ''viewer-svc'')]),
       (''spec'', YDict [(''selector'', YDict [(''component'', YStr ''viewer'')])])]"

definition example_args :: "int \<Rightarrow> args" where
  "example_args n =
     \<lparr>stream_url = ''https://kick.com/example_channel'', num_deployments = n,
      namespace = ''stream-viewers'', replicas_per_deployment = 1\<rparr>"

definition example_surroundings :: "yaml list \<Rightarrow> string list \<Rightarrow> surroundings" where
  "example_surroundings docs keys =
     \<lparr>kube_config = True, incluster_config = False, templates = docs,
      config_map = ConfigMapData (Some (map (\<lambda>k. (k, ''client'')) keys))\<rparr>"

text \<open>The memory after loading the two example documents, and the two templates in it.\<close>

definition example_heap :: heap where
  "example_heap = snd (objects_of_all [example_deployment, example_service] [])"

definition example_templates :: "pyval list" where
  "example_templates = fst (objects_of_all [example_deployment, example_service] [])"

section \<open>Sequencing\<close>

lemma bindE_Inr [simp]: "bindE (Inr x) f = f x"
  by (simp add: bindE_def)

lemma bindE_Inl [simp]: "bindE (Inl e) f = Inl e"
  by (simp add: bindE_def)

lemma bindE_eq_Inr: "bindE m f = Inr y \<longleftrightarrow> (\<exists>x. m = Inr x \<and> f x = Inr y)"
  by (cases m) simp_all

section \<open>The identity pool\<close>

text \<open>
  C2. A key of the ConfigMap gives a token exactly when it ends with \<^verbatim>\<open>.ovpn\<close>, which
  the program has; but the token should be the key without that trailing suffix and
  otherwise unchanged, and \<^verbatim>\<open>replace\<close> takes out every \<^verbatim>\<open>.ovpn\<close> in the key: the
  key \<^verbatim>\<open>a.ovpn.ovpn\<close> gives the token \<^verbatim>\<open>a\<close>, not \<^verbatim>\<open>a.ovpn\<close>, and the key
  \<^verbatim>\<open>x.ovpny.ovpn\<close> gives \<^verbatim>\<open>xy\<close>.
\<close>

theorem token_loses_inner_ovpn:
  "get_available_vpn_configs
     (ConfigMapData (Some [(''a.ovpn.ovpn'', ''client''), (''x.ovpny.ovpn'', ''client'')]))
   = Inr [''a'', ''xy'']"
  by code_simp

text \<open>
  C1. The run gives instance \<open>i\<close> the token \<open>i\<close> of the pool, and the tokens given
  should be pairwise distinct. With the keys \<^verbatim>\<open>a.ovpn\<close> and \<^verbatim>\<open>a.ovpn.ovpn\<close> in the
  ConfigMap and two instances asked for, both instances are given the token \<^verbatim>\<open>a\<close>.
\<close>

theorem two_instances_share_a_token:
  "prints (fst (snd (main scripted (example_args 2)
      (example_surroundings [example_deployment] [''a.ovpn'', ''a.ovpn.ovpn'']) [])))
   = [DeploymentCreated ''viewer-0'' ''a'', Separator,
      DeploymentCreated ''viewer-1'' ''a'', Separator,
      SuccessfullyProcessed 2]"
  by code_simp

section \<open>A pool smaller than the request\<close>

text \<open>
  C3, as the claim states it, fails where the pool is empty: the run then ends at line 72
  with the diagnostic of the empty pool, not with the one of line 75 for a pool that is
  too small. Here the ConfigMap holds no key ending in \<^verbatim>\<open>.ovpn\<close> and one instance is
  asked for.
\<close>

theorem empty_pool_is_not_exhaustion:
  "get_available_vpn_configs
      (config_map (example_surroundings [example_deployment] [''readme.txt''])) = Inr []
   \<and> int (length ([] :: string list)) < num_deployments (example_args 1)
   \<and> main scripted (example_args 1)
        (example_surroundings [example_deployment] [''readme.txt'']) []
      = (Some NoVpnConfigs, [], [])"
  by code_simp

text \<open>
  C3, amended. In every run that comes to the check of the pool (a configuration of the
  client loads, the template file has a Deployment, the ConfigMap is read) and asks for
  more instances than the pool has tokens, no call to create or replace is made, no
  instance is materialized, the orchestrator's state is as it was, and the run ends with
  exit status 1: with the diagnostic of line 75 when the pool has a token, and with the
  one of line 71 when it has none.
\<close>

theorem pool_too_small_aborts:
  assumes "kube_config w \<or> incluster_config w"
    and "find_kind ''Deployment'' (templates w) = Inr (Some base_deployment_template)"
    and "find_kind ''Service'' (templates w) = Inr base_service_template"
    and "get_available_vpn_configs (config_map w) = Inr available_vpns"
    and "int (length available_vpns) < num_deployments a"
  shows "main orch a w s =
           (Some (if available_vpns = [] then NoVpnConfigs
                  else NotEnoughVpns (num_deployments a) (length available_vpns)), [], s)
         \<and> calls (fst (snd (main orch a w s))) = []
         \<and> exit_status (main orch a w s) = 1"
  using assms by (auto simp: main_def prepare_def calls_def exit_status_def)

theorem pool_too_small_aborts_witness:
  "main scripted (example_args 3)
      (example_surroundings [example_deployment, example_service] [''vpnA.ovpn'', ''vpnB.ovpn'']) [ApiException 500]
    = (Some (NotEnoughVpns 3 2), [], [ApiException 500])
   \<and> main scripted (example_args 1)
      (example_surroundings [example_deployment, example_service] [''readme.txt'']) []
    = (Some NoVpnConfigs, [], [])"
proof -
  let ?w = "example_surroundings [example_deployment, example_service] [''vpnA.ovpn'', ''vpnB.ovpn'']"
  let ?v = "example_surroundings [example_deployment, example_service] [''readme.txt'']"
  have p1: "kube_config ?w \<or> incluster_config ?w" by (simp add: example_surroundings_def)
  have p2: "find_kind ''Deployment'' (templates ?w) = Inr (Some example_deployment)" by code_simp
  have p3: "find_kind ''Service'' (templates ?w) = Inr (Some example_service)" by code_simp
  have p4: "get_available_vpn_configs (config_map ?w) = Inr [''vpnA'', ''vpnB'']" by code_simp
  have p5: "int (length [''vpnA'', ''vpnB'']) < num_deployments (example_args 3)" by code_simp
  have q1: "kube_config ?v \<or> incluster_config ?v" by (simp add: example_surroundings_def)
  have q2: "find_kind ''Deployment'' (templates ?v) = Inr (Some example_deployment)" by code_simp
  have q3: "find_kind ''Service'' (templates ?v) = Inr (Some example_service)" by code_simp
  have q4: "get_available_vpn_configs (config_map ?v) = Inr []" by code_simp
  have q5: "int (length ([]::string list)) < num_deployments (example_args 1)" by code_simp
  have n: "num_deployments (example_args 3) = 3" by code_simp
  from pool_too_small_aborts [OF p1 p2 p3 p4 p5, of scripted "[ApiException 500]"]
       pool_too_small_aborts [OF q1 q2 q3 q4 q5, of scripted "[]"]
  show ?thesis by (simp add: n)
qed

section \<open>Conflicts and other errors of the orchestrator\<close>

text \<open>
  C5. When the orchestrator answers a create with the status 409: for a deployment the
  program calls replace, and prints that the deployment was replaced if that call returns
  and the error of the replace if it raises; for a service it makes no further call and
  prints that the service exists and is skipped. When a create is answered with any other
  status, the program prints the error and makes no further call for that object: no
  second create and no replace.
\<close>

theorem conflict_and_error_outcomes:
  "(orch (CreateNamespacedDeployment ns d) s = (ApiException 409, s1)
      \<and> orch (ReplaceNamespacedDeployment name ns d) s1 = (Returned, s2)
    \<longrightarrow> apply_deployment orch ns name vpn d s =
          ([Call (CreateNamespacedDeployment ns d), Call (ReplaceNamespacedDeployment name ns d),
            Print (DeploymentReplaced name vpn)], s2))
   \<and> (orch (CreateNamespacedDeployment ns d) s = (ApiException 409, s1)
      \<and> orch (ReplaceNamespacedDeployment name ns d) s1 = (ApiException status', s2)
    \<longrightarrow> apply_deployment orch ns name vpn d s =
          ([Call (CreateNamespacedDeployment ns d), Call (ReplaceNamespacedDeployment name ns d),
            Print (ErrorReplacingDeployment name status')], s2))
   \<and> (orch (CreateNamespacedService ns v) s = (ApiException 409, s1)
    \<longrightarrow> apply_service orch ns name' v s =
          ([Call (CreateNamespacedService ns v), Print (ServiceAlreadyExists name')], s1))
   \<and> (orch (CreateNamespacedDeployment ns d) s = (ApiException status, s1) \<and> status \<noteq> 409
    \<longrightarrow> apply_deployment orch ns name vpn d s =
          ([Call (CreateNamespacedDeployment ns d), Print (ErrorCreatingDeployment name status)], s1))
   \<and> (orch (CreateNamespacedService ns v) s = (ApiException status, s1) \<and> status \<noteq> 409
    \<longrightarrow> apply_service orch ns name' v s =
          ([Call (CreateNamespacedService ns v), Print (ErrorCreatingService name' status)], s1))"
  by (simp add: apply_deployment_def apply_service_def)

theorem conflict_and_error_outcomes_witness:
  "apply_deployment scripted ''ns'' ''viewer-0'' ''vpnA'' example_deployment [ApiException 409, Returned]
     = ([Call (CreateNamespacedDeployment ''ns'' example_deployment),
         Call (ReplaceNamespacedDeployment ''viewer-0'' ''ns'' example_deployment),
         Print (DeploymentReplaced ''viewer-0'' ''vpnA'')], [])
   \<and> apply_deployment scripted ''ns'' ''viewer-0'' ''vpnA'' example_deployment [ApiException 409, ApiException 422]
     = ([Call (CreateNamespacedDeployment ''ns'' example_deployment),
         Call (ReplaceNamespacedDeployment ''viewer-0'' ''ns'' example_deployment),
         Print (ErrorReplacingDeployment ''viewer-0'' 422)], [])
   \<and> apply_service scripted ''ns'' ''viewer-svc-0'' example_service [ApiException 409, Returned]
     = ([Call (CreateNamespacedService ''ns'' example_service),
         Print (ServiceAlreadyExists ''viewer-svc-0'')], [Returned])
   \<and> apply_deployment scripted ''ns'' ''viewer-0'' ''vpnA'' example_deployment [ApiException 500, Returned]
     = ([Call (CreateNamespacedDeployment ''ns'' example_deployment),
         Print (ErrorCreatingDeployment ''viewer-0'' 500)], [Returned])
   \<and> apply_service scripted ''ns'' ''viewer-svc-0'' example_service [ApiException 500, Returned]
     = ([Call (CreateNamespacedService ''ns'' example_service),
         Print (ErrorCreatingService ''viewer-svc-0'' 500)], [Returned])"
  using conflict_and_error_outcomes [of scripted "''ns''" example_deployment "[ApiException 409, Returned]"
          "[Returned]" "''viewer-0''" "[]" "''vpnA''" 409 example_service "''viewer-svc-0''" 409]
        conflict_and_error_outcomes [of scripted "''ns''" example_deployment "[ApiException 409, ApiException 422]"
          "[ApiException 422]" "''viewer-0''" "[]" "''vpnA''" 422 example_service "''viewer-svc-0''" 409]
        conflict_and_error_outcomes [of scripted "''ns''" example_deployment "[ApiException 500, Returned]"
          "[Returned]" "''viewer-0''" "[]" "''vpnA''" 500 example_service "''viewer-svc-0''" 500]
  by simp

section \<open>Reading after writing\<close>









section \<open>What materializing writes\<close>







lemma calls_append [simp]: "calls (xs @ ys) = calls xs @ calls ys"
  by (simp add: calls_def)

lemma calls_Cons [simp]:
  "calls (Call c # xs) = c # calls xs" "calls (Print m # xs) = calls xs" "calls [] = []"
  by (simp_all add: calls_def)

lemma calls_container_warning [simp]: "calls (container_warning u n) = []"
  by (simp add: container_warning_def)






section \<open>The environment of the container\<close>

lemma set_update_subset: "set (AList.update k v al) \<subseteq> insert (k, v) (set al)"
  by (induction al) auto





lemma entry_key_env_var [simp]: "entry_key (env_var name val) = Inr (KStr name)"
  by (simp add: entry_key_def env_var_def subscript_def)













section \<open>The batch\<close>

lemma prints_append [simp]: "prints (xs @ ys) = prints xs @ prints ys"
  by (simp add: prints_def)

lemma prints_Cons [simp]:
  "prints (Call c # xs) = prints xs" "prints (Print m # xs) = m # prints xs" "prints [] = []"
  by (simp_all add: prints_def)






lemma prepareE:
  assumes "prepare a w = Inr (base, base_svc, selected)"
  obtains available_vpns where
    "find_kind ''Deployment'' (templates w) = Inr (Some base)"
    "find_kind ''Service'' (templates w) = Inr base_svc"
    "get_available_vpn_configs (config_map w) = Inr available_vpns"
    "available_vpns \<noteq> []"
    "num_deployments a \<le> int (length available_vpns)"
    "selected = slice_to (num_deployments a) available_vpns"
  using assms unfolding prepare_def
  by (auto simp: bindE_eq_Inr split: if_splits option.splits)


text \<open>
  The tokens selected are the first ones of the pool, as many as instances are asked for;
  the loop gives the instance \<open>i\<close> the token \<open>i\<close> of them.
\<close>

lemma selected_is_prefix:
  assumes "prepare a w = Inr (base, base_svc, selected)" and "0 \<le> num_deployments a"
  shows "\<exists>available_vpns. get_available_vpn_configs (config_map w) = Inr available_vpns
           \<and> selected = take (nat (num_deployments a)) available_vpns
           \<and> length selected = nat (num_deployments a)"
proof -
  from assms(1) obtain available_vpns
    where "get_available_vpn_configs (config_map w) = Inr available_vpns"
      and "num_deployments a \<le> int (length available_vpns)"
      and "selected = slice_to (num_deployments a) available_vpns"
    by (rule prepareE)
  with assms(2) show ?thesis by (auto simp: slice_to_def)
qed




section \<open>The example of three instances\<close>

lemma created_deployments_append [simp]:
  "created_deployments (xs @ ys) = created_deployments xs @ created_deployments ys"
  by (simp add: created_deployments_def)

lemma created_deployments_simps [simp]:
  "created_deployments [] = []"
  "created_deployments (Print m # xs) = created_deployments xs"
  "created_deployments (Call (CreateNamespacedDeployment ns b) # xs) = b # created_deployments xs"
  "created_deployments (Call (ReplaceNamespacedDeployment name ns b) # xs) = created_deployments xs"
  "created_deployments (Call (CreateNamespacedService ns b) # xs) = created_deployments xs"
  by (simp_all add: created_deployments_def)

lemma created_deployments_container_warning [simp]:
  "created_deployments (container_warning u n) = []"
  by (simp add: container_warning_def)









section \<open>The templates stay as loaded\<close>

lemma intact_iff:
  "intact h0 h \<longleftrightarrow> (\<exists>new. h = h0 @ new \<and> list_all (new_obj h0) new)"
proof
  assume "intact h0 h"
  then have "h = h0 @ drop (length h0) h \<and> list_all (new_obj h0) (drop (length h0) h)"
    by (metis intact_def append_take_drop_id)
  then show "\<exists>new. h = h0 @ new \<and> list_all (new_obj h0) new" by blast
next
  assume "\<exists>new. h = h0 @ new \<and> list_all (new_obj h0) new"
  then show "intact h0 h" by (auto simp: intact_def)
qed

lemma intact_refl: "intact h0 h0"
  by (simp add: intact_def)

lemma intact_length: "intact h0 h \<Longrightarrow> length h0 \<le> length h"
  by (auto simp: intact_iff)

lemma intact_append: "intact h0 h \<Longrightarrow> new_obj h0 ob \<Longrightarrow> intact h0 (h @ [ob])"
  by (auto simp: intact_iff)

lemma intact_update:
  assumes "intact h0 h" and "length h0 \<le> a" and "new_obj h0 ob"
  shows "intact h0 (h[a := ob])"
proof -
  from assms(1) obtain new where h: "h = h0 @ new" and n: "list_all (new_obj h0) new"
    by (auto simp: intact_iff)
  from assms(2) h have "h[a := ob] = h0 @ new[a - length h0 := ob]"
    by (simp add: list_update_append)
  moreover from n assms(3) have "list_all (new_obj h0) (new[a - length h0 := ob])"
    using set_update_subset_insert [of new "a - length h0" ob]
    by (auto simp: list_all_iff)
  ultimately show ?thesis by (auto simp: intact_iff)
qed

lemma intact_nth:
  assumes "intact h0 h" and "length h0 \<le> a" and "a < length h"
  shows "new_obj h0 (h ! a)"
proof -
  from assms(1) obtain new where h: "h = h0 @ new" and n: "list_all (new_obj h0) new"
    by (auto simp: intact_iff)
  from assms(2,3) h have "h ! a = new ! (a - length h0)" and "a - length h0 < length new"
    by (auto simp: nth_append)
  with n show ?thesis by (simp add: list_all_length)
qed

lemma keeps_return: "Q x \<Longrightarrow> keeps h0 (returnH x) Q"
  by (simp add: keeps_def returnH_def)

lemma keeps_raise: "keeps h0 (raiseH e) Q"
  by (simp add: keeps_def raiseH_def)

lemma keeps_pure: "keeps h0 (pureH r) (\<lambda>x. True)"
  by (simp add: keeps_def pureH_def)

lemma keeps_bind:
  assumes "keeps h0 m Q" and "\<And>x. Q x \<Longrightarrow> keeps h0 (f x) R"
  shows "keeps h0 (bindH m f) R"
  unfolding keeps_def
proof (intro allI impI)
  fix h r h'
  assume s: "intact h0 h" and b: "bindH m f h = (r, h')"
  obtain r1 h1 where m: "m h = (r1, h1)" by (cases "m h")
  from assms(1) s m have s1: "intact h0 h1" and q: "\<forall>x. r1 = Inr x \<longrightarrow> Q x"
    by (auto simp: keeps_def)
  show "intact h0 h' \<and> (\<forall>x. r = Inr x \<longrightarrow> R x)"
  proof (cases r1)
    case (Inl e)
    with b m s1 show ?thesis by (auto simp: bindH_def)
  next
    case (Inr x)
    with b m have "f x h1 = (r, h')" by (simp add: bindH_def)
    with assms(2) [of x] q Inr s1 show ?thesis by (auto simp: keeps_def)
  qed
qed

lemma keeps_weaken: "keeps h0 m Q \<Longrightarrow> (\<And>x. Q x \<Longrightarrow> R x) \<Longrightarrow> keeps h0 m R"
  by (auto simp: keeps_def)

lemma keeps_deref_any: "keeps h0 (deref v) (\<lambda>ob. True)"
  by (auto simp: keeps_def deref_def split: pyval.splits if_splits)

lemma keeps_deref:
  "new_ref h0 v \<Longrightarrow>
   keeps h0 (deref v) (\<lambda>ob. case ob of None \<Rightarrow> True | Some o' \<Rightarrow> new_obj h0 o')"
  by (auto simp: keeps_def deref_def new_ref_def intact_nth split: pyval.splits if_splits)

lemma keeps_alloc: "new_obj h0 ob \<Longrightarrow> keeps h0 (alloc ob) (new_ref h0)"
  by (auto simp: keeps_def alloc_def new_ref_def intact_append intact_length)

lemma keeps_store: "length h0 \<le> a \<Longrightarrow> new_obj h0 ob \<Longrightarrow> keeps h0 (store a ob) (\<lambda>u. True)"
  by (auto simp: keeps_def store_def intact_update)

lemma new_obj_lookup:
  "new_obj h0 (PDict d) \<Longrightarrow> map_of d k = Some v \<Longrightarrow> new_ref h0 v"
  by (auto simp: new_obj_def members_def list_all_iff dest!: map_of_SomeD)

lemma new_obj_update:
  "new_obj h0 (PDict d) \<Longrightarrow> new_ref h0 v \<Longrightarrow> new_obj h0 (PDict (AList.update k v d))"
  using set_update_subset [of k v d]
  by (auto simp: new_obj_def members_def list_all_iff)

lemma new_obj_empty [simp]: "new_obj h0 (PDict [])" "new_obj h0 (PList [])"
  by (simp_all add: new_obj_def members_def)

lemma new_ref_scalar [simp]:
  "new_ref h0 PNull" "new_ref h0 (PBool b)" "new_ref h0 (PInt i)" "new_ref h0 (PFloat f)"
  "new_ref h0 (PStr s)"
  by (simp_all add: new_ref_def)

lemma keeps_subscript: "new_ref h0 x \<Longrightarrow> keeps h0 (h_subscript x k) (new_ref h0)"
  unfolding h_subscript_def
  by (rule keeps_bind [OF keeps_deref])
     (auto split: option.splits pyobj.splits intro: keeps_return keeps_raise new_obj_lookup)

lemma keeps_get_scalar:
  "new_ref h0 x \<Longrightarrow> new_ref h0 dflt \<Longrightarrow> keeps h0 (h_get_scalar x k dflt) (new_ref h0)"
  unfolding h_get_scalar_def
  by (rule keeps_bind [OF keeps_deref])
     (auto split: option.splits pyobj.splits intro: keeps_return keeps_raise new_obj_lookup)

lemma keeps_get:
  assumes "new_ref h0 x" and "new_obj h0 dflt"
  shows "keeps h0 (h_get x k dflt) (new_ref h0)"
  unfolding h_get_def
proof (rule keeps_bind [OF keeps_deref [OF assms(1)]])
  fix ob
  assume ob: "case ob of None \<Rightarrow> True | Some o' \<Rightarrow> new_obj h0 o'"
  show "keeps h0 (case ob of
           Some (PDict d) \<Rightarrow>
             bindH (alloc dflt) (\<lambda>dv. returnH (case map_of d k of Some v \<Rightarrow> v | None \<Rightarrow> dv))
         | _ \<Rightarrow> raiseH (Uncaught AttributeError)) (new_ref h0)"
  proof (cases ob)
    case None
    then show ?thesis by (simp add: keeps_raise)
  next
    case (Some o')
    show ?thesis
    proof (cases o')
      case (PDict d)
      with Some ob have d: "new_obj h0 (PDict d)" by simp
      have "keeps h0 (bindH (alloc dflt)
              (\<lambda>dv. returnH (case map_of d k of Some v \<Rightarrow> v | None \<Rightarrow> dv))) (new_ref h0)"
        by (rule keeps_bind [OF keeps_alloc [OF assms(2)]], rule keeps_return)
           (auto split: option.splits intro: new_obj_lookup [OF d])
      with Some PDict show ?thesis by simp
    next
      case (PList xs)
      with Some show ?thesis by (simp add: keeps_raise)
    qed
  qed
qed

lemma keeps_set_item:
  assumes "new_ref h0 x" and "new_ref h0 v"
  shows "keeps h0 (h_set_item x k v) (\<lambda>u. True)"
  unfolding h_set_item_def
proof (rule keeps_bind [OF keeps_deref [OF assms(1)]])
  fix ob
  assume ob: "case ob of None \<Rightarrow> True | Some o' \<Rightarrow> new_obj h0 o'"
  show "keeps h0 (case (x, ob) of
           (PRef a, Some (PDict d)) \<Rightarrow> store a (PDict (AList.update k v d))
         | _ \<Rightarrow> raiseH (Uncaught TypeError)) (\<lambda>u. True)"
  proof (cases "\<exists>a d. x = PRef a \<and> ob = Some (PDict d)")
    case True
    then obtain a d where x: "x = PRef a" and o': "ob = Some (PDict d)" by blast
    from x assms(1) have a: "length h0 \<le> a" by (simp add: new_ref_def)
    from o' ob have "new_obj h0 (PDict d)" by simp
    from keeps_store [OF a new_obj_update [OF this assms(2)]] x o' show ?thesis by simp
  next
    case False
    then show ?thesis
      by (auto simp: keeps_raise split: pyval.splits option.splits pyobj.splits)
  qed
qed

lemma keeps_setdefault:
  assumes "new_ref h0 x"
  shows "keeps h0 (h_setdefault x k) (\<lambda>u. True)"
  unfolding h_setdefault_def
proof (rule keeps_bind [OF keeps_deref [OF assms(1)]])
  fix ob
  assume ob: "case ob of None \<Rightarrow> True | Some o' \<Rightarrow> new_obj h0 o'"
  show "keeps h0 (case (x, ob) of
           (PRef a, Some (PDict d)) \<Rightarrow>
             bindH (alloc (PDict [])) (\<lambda>dv.
               case map_of d k of
                 Some _ \<Rightarrow> returnH ()
               | None \<Rightarrow> store a (PDict (AList.update k dv d)))
         | _ \<Rightarrow> raiseH (Uncaught AttributeError)) (\<lambda>u. True)"
  proof (cases "\<exists>a d. x = PRef a \<and> ob = Some (PDict d)")
    case True
    then obtain a d where x: "x = PRef a" and o': "ob = Some (PDict d)" by blast
    from x assms(1) have a: "length h0 \<le> a" by (simp add: new_ref_def)
    from o' ob have d: "new_obj h0 (PDict d)" by simp
    have "keeps h0 (bindH (alloc (PDict [])) (\<lambda>dv.
               case map_of d k of
                 Some _ \<Rightarrow> returnH ()
               | None \<Rightarrow> store a (PDict (AList.update k dv d)))) (\<lambda>u. True)"
    proof (rule keeps_bind [OF keeps_alloc])
      show "new_obj h0 (PDict [])" by simp
    next
      fix dv
      assume "new_ref h0 dv"
      from keeps_store [OF a new_obj_update [OF d this]]
      show "keeps h0 (case map_of d k of
                 Some _ \<Rightarrow> returnH ()
               | None \<Rightarrow> store a (PDict (AList.update k dv d))) (\<lambda>u. True)"
        by (simp add: keeps_return split: option.splits)
    qed
    with x o' show ?thesis by simp
  next
    case False
    then show ?thesis
      by (auto simp: keeps_raise split: pyval.splits option.splits pyobj.splits)
  qed
qed

lemma keeps_get_path: "new_ref h0 x \<Longrightarrow> keeps h0 (h_get_path x p) (new_ref h0)"
proof (induction p arbitrary: x)
  case Nil
  then show ?case by (simp add: keeps_return)
next
  case (Cons k p)
  show ?case
    by (simp, rule keeps_bind [OF keeps_subscript [OF Cons.prems]]) (rule Cons.IH)
qed

lemma keeps_assign:
  "new_ref h0 x \<Longrightarrow> new_ref h0 v \<Longrightarrow> keeps h0 (h_assign x p k v) (\<lambda>u. True)"
  unfolding h_assign_def
  by (rule keeps_bind [OF keeps_get_path]) (auto intro: keeps_set_item)

lemma keeps_set_default: "new_ref h0 x \<Longrightarrow> keeps h0 (h_set_default x p k) (\<lambda>u. True)"
  unfolding h_set_default_def
  by (rule keeps_bind [OF keeps_get_path]) (auto intro: keeps_setdefault)

lemma keeps_iter: "new_ref h0 x \<Longrightarrow> keeps h0 (h_iter x) (list_all (new_ref h0))"
  unfolding h_iter_def
  by (rule keeps_bind [OF keeps_deref])
     (auto simp: new_obj_def members_def list_all_iff
           split: option.splits pyobj.splits pyval.splits intro!: keeps_return keeps_raise)

lemma keeps_bind_pair:
  assumes "keeps h0 m (\<lambda>(x, y). Q x y)" and "\<And>x y. Q x y \<Longrightarrow> keeps h0 (f x y) R"
  shows "keeps h0 (bindH m (case_prod f)) R"
  by (rule keeps_bind [OF assms(1)]) (auto intro: assms(2))

lemma memo_new_lookup: "memo_new h0 memo \<Longrightarrow> map_of memo a = Some b \<Longrightarrow> length h0 \<le> b"
  by (auto simp: memo_new_def list_all_iff dest!: map_of_SomeD)

lemma new_obj_PList: "list_all (new_ref h0) ys \<Longrightarrow> new_obj h0 (PList ys)"
  by (simp add: new_obj_def members_def)

lemma new_obj_PDict_zip: "list_all (new_ref h0) ys \<Longrightarrow> new_obj h0 (PDict (zip ks ys))"
  by (auto simp: new_obj_def members_def list_all_iff dest: set_zip_rightD)

lemma keeps_deepcopy_all_step:
  assumes d: "\<And>memo v. memo_new h0 memo \<Longrightarrow>
           keeps h0 (deepcopy n memo v) (\<lambda>(y, memo'). new_ref h0 y \<and> memo_new h0 memo')"
  shows "memo_new h0 memo \<Longrightarrow>
           keeps h0 (deepcopy_all n memo vs)
             (\<lambda>(ys, memo'). list_all (new_ref h0) ys \<and> memo_new h0 memo')"
proof (induction vs arbitrary: memo)
  case Nil
  then show ?case by (simp add: keeps_return)
next
  case (Cons v vs)
  show ?case
    unfolding deepcopy_all.simps
  proof (rule keeps_bind_pair [OF d [OF Cons.prems]])
    fix y memo'
    assume y: "new_ref h0 y \<and> memo_new h0 memo'"
    show "keeps h0 (bindH (deepcopy_all n memo' vs) (\<lambda>(ys, memo''). returnH (y # ys, memo'')))
            (\<lambda>(ys, memo'). list_all (new_ref h0) ys \<and> memo_new h0 memo')"
    proof (rule keeps_bind_pair [OF Cons.IH])
      from y show "memo_new h0 memo'" by simp
    next
      fix ys memo''
      assume "list_all (new_ref h0) ys \<and> memo_new h0 memo''"
      with y show "keeps h0 (returnH (y # ys, memo''))
            (\<lambda>(ys, memo'). list_all (new_ref h0) ys \<and> memo_new h0 memo')"
        by (simp add: keeps_return)
    qed
  qed
qed

lemma keeps_deepcopy_step:
  assumes al: "\<And>memo vs. memo_new h0 memo \<Longrightarrow>
           keeps h0 (deepcopy_all n memo vs)
             (\<lambda>(ys, memo'). list_all (new_ref h0) ys \<and> memo_new h0 memo')"
    and memo: "memo_new h0 memo"
  shows "keeps h0 (deepcopy (Suc n) memo v) (\<lambda>(y, memo'). new_ref h0 y \<and> memo_new h0 memo')"
proof (cases "\<exists>a. v = PRef a")
  case False
  then have "deepcopy (Suc n) memo v = returnH (v, memo)"
    by (cases v) simp_all
  moreover from False have "new_ref h0 v" by (cases v) (simp_all add: new_ref_def)
  ultimately show ?thesis using memo by (simp add: keeps_return)
next
  case True
  then obtain a where v: "v = PRef a" by blast
  show ?thesis
  proof (cases "map_of memo a")
    case (Some b)
    from memo_new_lookup [OF memo Some] have "new_ref h0 (PRef b)" by (simp add: new_ref_def)
    with v Some memo show ?thesis by (simp add: keeps_return)
  next
    case None
    have copy: "keeps h0
        (bindH (alloc empty) (\<lambda>y. case y of
             PRef b \<Rightarrow>
               bindH (deepcopy_all n ((a, b) # memo) xs) (\<lambda>(ys, memo').
               bindH (store b (fill ys)) (\<lambda>_. returnH (y, memo')))
           | _ \<Rightarrow> raiseH Unmodelled))
        (\<lambda>(y, memo'). new_ref h0 y \<and> memo_new h0 memo')"
      if e: "new_obj h0 empty" and f: "\<And>ys. list_all (new_ref h0) ys \<Longrightarrow> new_obj h0 (fill ys)"
      for empty fill xs
    proof (rule keeps_bind [OF keeps_alloc [OF e]])
      fix y
      assume y: "new_ref h0 y"
      show "keeps h0 (case y of
             PRef b \<Rightarrow>
               bindH (deepcopy_all n ((a, b) # memo) xs) (\<lambda>(ys, memo').
               bindH (store b (fill ys)) (\<lambda>_. returnH (y, memo')))
           | _ \<Rightarrow> raiseH Unmodelled)
        (\<lambda>(y, memo'). new_ref h0 y \<and> memo_new h0 memo')"
      proof (cases "\<exists>b. y = PRef b")
        case False
        then show ?thesis by (cases y) (simp_all add: keeps_raise)
      next
        case True
        then obtain b where yb: "y = PRef b" by blast
        with y have b: "length h0 \<le> b" by (simp add: new_ref_def)
        with memo have m: "memo_new h0 ((a, b) # memo)" by (simp add: memo_new_def)
        have "keeps h0 (bindH (deepcopy_all n ((a, b) # memo) xs) (\<lambda>(ys, memo').
               bindH (store b (fill ys)) (\<lambda>_. returnH (y, memo'))))
            (\<lambda>(y, memo'). new_ref h0 y \<and> memo_new h0 memo')"
        proof (rule keeps_bind_pair [OF al [OF m]])
          fix ys memo'
          assume r: "list_all (new_ref h0) ys \<and> memo_new h0 memo'"
          then have "new_obj h0 (fill ys)" by (simp add: f)
          note st = keeps_store [OF b this]
          from y r have ret: "keeps h0 (returnH (y, memo'))
            (\<lambda>(y, memo'). new_ref h0 y \<and> memo_new h0 memo')"
            by (simp add: keeps_return)
          show "keeps h0 (bindH (store b (fill ys)) (\<lambda>_. returnH (y, memo')))
            (\<lambda>(y, memo'). new_ref h0 y \<and> memo_new h0 memo')"
            by (rule keeps_bind [OF st]) (rule ret)
        qed
        with yb show ?thesis by simp
      qed
    qed
    have "keeps h0 (bindH (deref v) (\<lambda>ob.
               case ob of
                 Some (PList xs) \<Rightarrow>
                   bindH (alloc (PList [])) (\<lambda>y.
                   case y of
                     PRef b \<Rightarrow>
                       bindH (deepcopy_all n ((a, b) # memo) xs) (\<lambda>(ys, memo').
                       bindH (store b (PList ys)) (\<lambda>_.
                       returnH (y, memo')))
                   | _ \<Rightarrow> raiseH Unmodelled)
               | Some (PDict d) \<Rightarrow>
                   bindH (alloc (PDict [])) (\<lambda>y.
                   case y of
                     PRef b \<Rightarrow>
                       bindH (deepcopy_all n ((a, b) # memo) (map snd d)) (\<lambda>(ys, memo').
                       bindH (store b (PDict (zip (map fst d) ys))) (\<lambda>_.
                       returnH (y, memo')))
                   | _ \<Rightarrow> raiseH Unmodelled)
               | None \<Rightarrow> raiseH Unmodelled))
        (\<lambda>(y, memo'). new_ref h0 y \<and> memo_new h0 memo')"
    proof (rule keeps_bind [OF keeps_deref_any])
      fix ob
      show "keeps h0 (case ob of
                 Some (PList xs) \<Rightarrow>
                   bindH (alloc (PList [])) (\<lambda>y.
                   case y of
                     PRef b \<Rightarrow>
                       bindH (deepcopy_all n ((a, b) # memo) xs) (\<lambda>(ys, memo').
                       bindH (store b (PList ys)) (\<lambda>_.
                       returnH (y, memo')))
                   | _ \<Rightarrow> raiseH Unmodelled)
               | Some (PDict d) \<Rightarrow>
                   bindH (alloc (PDict [])) (\<lambda>y.
                   case y of
                     PRef b \<Rightarrow>
                       bindH (deepcopy_all n ((a, b) # memo) (map snd d)) (\<lambda>(ys, memo').
                       bindH (store b (PDict (zip (map fst d) ys))) (\<lambda>_.
                       returnH (y, memo')))
                   | _ \<Rightarrow> raiseH Unmodelled)
               | None \<Rightarrow> raiseH Unmodelled)
        (\<lambda>(y, memo'). new_ref h0 y \<and> memo_new h0 memo')"
      proof (cases ob)
        case None
        then show ?thesis by (simp add: keeps_raise)
      next
        case (Some o')
        show ?thesis
        proof (cases o')
          case (PList xs)
          from copy [of "PList []" PList xs] Some PList show ?thesis
            by (simp add: new_obj_PList)
        next
          case (PDict d)
          from copy [of "PDict []" "\<lambda>ys. PDict (zip (map fst d) ys)" "map snd d"] Some PDict
          show ?thesis by (simp add: new_obj_PDict_zip)
        qed
      qed
    qed
    with v None show ?thesis by simp
  qed
qed

lemma keeps_deepcopy:
  "memo_new h0 memo \<Longrightarrow>
     keeps h0 (deepcopy n memo v) (\<lambda>(y, memo'). new_ref h0 y \<and> memo_new h0 memo')"
proof (induction n arbitrary: memo v)
  case 0
  then show ?case by (simp add: keeps_raise)
next
  case (Suc n)
  show ?case
    by (rule keeps_deepcopy_step [OF keeps_deepcopy_all_step [OF Suc.IH] Suc.prems])
qed

lemma keeps_copy:
  "keeps h0 (deepcopy n [] v) (\<lambda>(y, memo'). new_ref h0 y \<and> memo_new h0 memo')"
  by (rule keeps_deepcopy) (simp add: memo_new_def)


lemma keeps_env_map_of:
  "list_all (new_ref h0) evs \<Longrightarrow> list_all (new_ref h0) (map snd acc) \<Longrightarrow>
     keeps h0 (h_env_map_of acc evs) (\<lambda>m. list_all (new_ref h0) (map snd m))"
proof (induction evs arbitrary: acc)
  case Nil
  then show ?case by (simp add: keeps_return)
next
  case (Cons ev evs)
  from Cons.prems have ev: "new_ref h0 ev" and evs: "list_all (new_ref h0) evs" by simp_all
  show ?case
    unfolding h_env_map_of.simps
  proof (rule keeps_bind [OF keeps_subscript [OF ev]], rule keeps_bind [OF keeps_pure])
    fix n k
    from Cons.prems(2) ev have "list_all (new_ref h0) (map snd (AList.update k ev acc))"
      using set_update_subset [of k ev acc] by (auto simp: list_all_iff)
    from Cons.IH [OF evs this]
    show "keeps h0 (h_env_map_of (AList.update k ev acc) evs)
            (\<lambda>m. list_all (new_ref h0) (map snd m))" .
  qed
qed

lemma keeps_env_var: "keeps h0 (h_env_var name val) (new_ref h0)"
  unfolding h_env_var_def by (rule keeps_alloc) (simp add: new_obj_def members_def)

lemma keeps_merged_env:
  assumes "new_ref h0 container"
  shows "keeps h0 (h_merged_env container i url vpn) (new_ref h0)"
  unfolding h_merged_env_def
proof (rule keeps_bind [OF keeps_get [OF assms]])
  show "new_obj h0 (PList [])" by simp
next
  fix env_vars
  assume "new_ref h0 env_vars"
  note it = keeps_iter [OF this]
  show "keeps h0
     (bindH (h_iter env_vars) (\<lambda>evs.
      bindH (h_env_map_of [] evs) (\<lambda>env_map.
      bindH (h_env_var ''BOX_NAME'' (''box-'' @ str_nat i)) (\<lambda>box_name.
      bindH (h_env_var ''STREAM_URL'' url) (\<lambda>url.
      bindH (h_env_var ''VPN_CONFIG'' vpn) (\<lambda>vpn.
      alloc (PList (map snd
        (AList.update (KStr ''VPN_CONFIG'') vpn
        (AList.update (KStr ''STREAM_URL'') url
        (AList.update (KStr ''BOX_NAME'') box_name env_map)))))))))))
     (new_ref h0)"
  proof (rule keeps_bind [OF it])
    fix evs
    assume "list_all (new_ref h0) evs"
    from keeps_env_map_of [OF this, of "[]"]
    have em: "keeps h0 (h_env_map_of [] evs) (\<lambda>m. list_all (new_ref h0) (map snd m))"
      by simp
    show "keeps h0
     (bindH (h_env_map_of [] evs) (\<lambda>env_map.
      bindH (h_env_var ''BOX_NAME'' (''box-'' @ str_nat i)) (\<lambda>box_name.
      bindH (h_env_var ''STREAM_URL'' url) (\<lambda>url.
      bindH (h_env_var ''VPN_CONFIG'' vpn) (\<lambda>vpn.
      alloc (PList (map snd
        (AList.update (KStr ''VPN_CONFIG'') vpn
        (AList.update (KStr ''STREAM_URL'') url
        (AList.update (KStr ''BOX_NAME'') box_name env_map))))))))))
     (new_ref h0)"
    proof (rule keeps_bind [OF em], rule keeps_bind [OF keeps_env_var],
        rule keeps_bind [OF keeps_env_var], rule keeps_bind [OF keeps_env_var])
      fix env_map :: "(key \<times> pyval) list" and b u v
      assume m: "list_all (new_ref h0) (map snd env_map)"
        and b: "new_ref h0 b" and u: "new_ref h0 u" and v: "new_ref h0 v"
      have up: "list_all (new_ref h0) (map snd (AList.update k x al))"
        if "list_all (new_ref h0) (map snd al)" and "new_ref h0 x" for k x al
        using that set_update_subset [of k x al] by (auto simp: list_all_iff)
      from m b u v have "list_all (new_ref h0) (map snd
        (AList.update (KStr ''VPN_CONFIG'') v
        (AList.update (KStr ''STREAM_URL'') u
        (AList.update (KStr ''BOX_NAME'') b env_map))))"
        by (intro up)
      then show "keeps h0 (alloc (PList (map snd
        (AList.update (KStr ''VPN_CONFIG'') v
        (AList.update (KStr ''STREAM_URL'') u
        (AList.update (KStr ''BOX_NAME'') b env_map)))))) (new_ref h0)"
        by (intro keeps_alloc new_obj_PList)
    qed
  qed
qed

lemma keeps_inject_env:
  "list_all (new_ref h0) containers \<Longrightarrow>
     keeps h0 (h_inject_env containers i url vpn) (\<lambda>u. True)"
proof (induction containers)
  case Nil
  then show ?case by (simp add: keeps_return)
next
  case (Cons c rest)
  from Cons.prems have c: "new_ref h0 c" and rest: "list_all (new_ref h0) rest" by simp_all
  show ?case
    unfolding h_inject_env.simps
  proof (rule keeps_bind [OF keeps_subscript [OF c]])
    fix n
    have "keeps h0 (bindH (h_merged_env c i url vpn) (\<lambda>env.
            bindH (h_set_item c ''env'' env) (\<lambda>_. returnH True))) (\<lambda>u. True)"
    proof (rule keeps_bind [OF keeps_merged_env [OF c]])
      fix env
      assume "new_ref h0 env"
      from keeps_set_item [OF c this]
      show "keeps h0 (bindH (h_set_item c ''env'' env) (\<lambda>_. returnH True)) (\<lambda>u. True)"
        by (rule keeps_bind) (simp add: keeps_return)
    qed
    with Cons.IH [OF rest]
    show "keeps h0 (if n = PStr ''viewer-box'' then
            bindH (h_merged_env c i url vpn) (\<lambda>env.
            bindH (h_set_item c ''env'' env) (\<lambda>_. returnH True))
          else h_inject_env rest i url vpn) (\<lambda>u. True)"
      by simp
  qed
qed

lemma keeps_bind_unit:
  assumes "keeps h0 m (\<lambda>u. True)" and "keeps h0 f R"
  shows "keeps h0 (bindH m (\<lambda>_. f)) R"
  by (rule keeps_bind [OF assms(1)]) (rule assms(2))

lemma keeps_materialize_deployment:
  "keeps h0 (h_materialize_deployment depth base i vpn url replicas)
     (\<lambda>(cur, name, lab, upd). new_ref h0 cur)"
  unfolding h_materialize_deployment_def Let_def
proof (rule keeps_bind_pair [OF keeps_copy])
  fix cur memo
  assume "new_ref h0 cur \<and> memo_new h0 memo"
  then have cur: "new_ref h0 cur" by simp
  note sub = keeps_bind [OF keeps_subscript] and gs = keeps_bind [OF keeps_get_scalar]
    and pu = keeps_bind [OF keeps_pure] and gp = keeps_bind [OF keeps_get_path]
    and asg = keeps_bind_unit [OF keeps_assign] and sd = keeps_bind_unit [OF keeps_set_default]
    and it = keeps_bind [OF keeps_iter] and inj = keeps_bind [OF keeps_inject_env]
  show "keeps h0
     (bindH (h_subscript cur ''metadata'') (\<lambda>metadata.
      bindH (h_get_scalar metadata ''name'' (PStr ''viewer-deployment'')) (\<lambda>original_deployment_name.
      bindH (pureH (h_format original_deployment_name)) (\<lambda>name_text.
      bindH (h_get_path cur [''spec'', ''selector'', ''matchLabels'']) (\<lambda>match_labels.
      bindH (h_get_scalar match_labels ''component'' (PStr ''viewer'')) (\<lambda>original_component_label.
      bindH (pureH (h_format original_component_label)) (\<lambda>label_text.
      bindH (h_assign cur [''metadata''] ''name'' (PStr (name_text @ ''-'' @ str_nat i))) (\<lambda>_.
      bindH (h_set_default cur [''metadata''] ''labels'') (\<lambda>_.
      bindH (h_assign cur [''metadata'', ''labels''] ''deployment-instance''
               (PStr (str_nat i))) (\<lambda>_.
      bindH (h_assign cur [''spec''] ''replicas'' (PInt replicas)) (\<lambda>_.
      bindH (h_assign cur [''spec'', ''selector'', ''matchLabels''] ''component''
               (PStr (label_text @ ''-'' @ str_nat i))) (\<lambda>_.
      bindH (h_assign cur [''spec'', ''selector'', ''matchLabels'']
               ''deployment-instance'' (PStr (str_nat i))) (\<lambda>_.
      bindH (h_set_default cur [''spec'', ''template'', ''metadata''] ''labels'') (\<lambda>_.
      bindH (h_assign cur [''spec'', ''template'', ''metadata'', ''labels'']
               ''component'' (PStr (label_text @ ''-'' @ str_nat i))) (\<lambda>_.
      bindH (h_assign cur [''spec'', ''template'', ''metadata'', ''labels'']
               ''deployment-instance'' (PStr (str_nat i))) (\<lambda>_.
      bindH (h_get_path cur containers_path) (\<lambda>containers.
      bindH (h_iter containers) (\<lambda>items.
      bindH (h_inject_env items i url vpn) (\<lambda>container_updated.
      returnH (cur, name_text @ ''-'' @ str_nat i, label_text @ ''-'' @ str_nat i,
               container_updated))))))))))))))))))))
     (\<lambda>(cur, name, lab, upd). new_ref h0 cur)"
    apply (rule sub [OF cur], rule gs, assumption, simp, rule pu)
    apply (rule gp [OF cur], rule gs, assumption, simp, rule pu)
    apply (rule asg [OF cur], simp)
    apply (rule sd [OF cur])
    apply (rule asg [OF cur], simp)
    apply (rule asg [OF cur], simp)
    apply (rule asg [OF cur], simp)
    apply (rule asg [OF cur], simp)
    apply (rule sd [OF cur])
    apply (rule asg [OF cur], simp)
    apply (rule asg [OF cur], simp)
    apply (rule gp [OF cur], rule it, assumption, rule inj, assumption)
    apply (rule keeps_return, simp add: cur)
    done
qed

lemma keeps_materialize_service:
  "keeps h0 (h_materialize_service depth base i lab) (\<lambda>(cur, name). new_ref h0 cur)"
  unfolding h_materialize_service_def Let_def
proof (rule keeps_bind_pair [OF keeps_copy])
  fix cur memo
  assume "new_ref h0 cur \<and> memo_new h0 memo"
  then have cur: "new_ref h0 cur" by simp
  note sub = keeps_bind [OF keeps_subscript] and gs = keeps_bind [OF keeps_get_scalar]
    and pu = keeps_bind [OF keeps_pure]
    and asg = keeps_bind_unit [OF keeps_assign] and sd = keeps_bind_unit [OF keeps_set_default]
  show "keeps h0
     (bindH (h_subscript cur ''metadata'') (\<lambda>metadata.
      bindH (h_get_scalar metadata ''name'' (PStr ''viewer-service'')) (\<lambda>original_service_name.
      bindH (pureH (h_format original_service_name)) (\<lambda>name_text.
      bindH (h_assign cur [''metadata''] ''name'' (PStr (name_text @ ''-'' @ str_nat i))) (\<lambda>_.
      bindH (h_set_default cur [''metadata''] ''labels'') (\<lambda>_.
      bindH (h_assign cur [''metadata'', ''labels''] ''deployment-instance''
               (PStr (str_nat i))) (\<lambda>_.
      bindH (h_assign cur [''spec'', ''selector''] ''component'' (PStr lab)) (\<lambda>_.
      bindH (h_assign cur [''spec'', ''selector''] ''deployment-instance''
               (PStr (str_nat i))) (\<lambda>_.
      returnH (cur, name_text @ ''-'' @ str_nat i))))))))))
     (\<lambda>(cur, name). new_ref h0 cur)"
    apply (rule sub [OF cur], rule gs, assumption, simp, rule pu)
    apply (rule asg [OF cur], simp)
    apply (rule sd [OF cur])
    apply (rule asg [OF cur], simp)
    apply (rule asg [OF cur], simp)
    apply (rule asg [OF cur], simp)
    apply (rule keeps_return, simp add: cur)
    done
qed

lemma keeps_instance_step:
  "keeps h0 (h_instance_step depth a base base_svc selected i) (\<lambda>made. True)"
  unfolding h_instance_step_def
proof (rule keeps_bind [OF keeps_pure], rule keeps_bind_pair [OF keeps_weaken [OF keeps_materialize_deployment]])
  fix vpn and x :: "pyval \<times> string \<times> string \<times> bool"
  show "(case x of (cur, name, lab, upd) \<Rightarrow> new_ref h0 cur)
        \<Longrightarrow> (case x of (cur, rest) \<Rightarrow> True)"
    by (cases x) simp
next
  fix vpn cur and rest :: "string \<times> string \<times> bool"
  obtain name lab upd where rest: "rest = (name, lab, upd)" by (cases rest)
  have "keeps h0 (case base_svc of
           None \<Rightarrow> returnH (cur, None)
         | Some service \<Rightarrow>
             bindH (h_materialize_service depth service i lab)
               (\<lambda>(current_service, new_service_name). returnH (cur, Some current_service)))
        (\<lambda>made. True)"
  proof (cases base_svc)
    case None
    then show ?thesis by (simp add: keeps_return)
  next
    case (Some service)
    have "keeps h0 (bindH (h_materialize_service depth service i lab)
               (\<lambda>(current_service, new_service_name). returnH (cur, Some current_service)))
        (\<lambda>made. True)"
      by (rule keeps_bind_pair [OF keeps_materialize_service]) (simp add: keeps_return)
    with Some show ?thesis by simp
  qed
  with rest show "keeps h0 (case rest of
           (new_deployment_name, new_component_label, container_updated) \<Rightarrow>
             case base_svc of
               None \<Rightarrow> returnH (cur, None)
             | Some service \<Rightarrow>
                 bindH (h_materialize_service depth service i new_component_label)
                   (\<lambda>(current_service, new_service_name). returnH (cur, Some current_service)))
        (\<lambda>made. True)"
    by simp
qed

lemma keeps_deploy_loop:
  "keeps h0 (h_deploy_loop depth a base base_svc selected indices) (\<lambda>mades. True)"
proof (induction indices)
  case Nil
  show ?case by (simp add: keeps_return)
next
  case (Cons i rest)
  show ?case
    unfolding h_deploy_loop.simps
    by (rule keeps_bind [OF keeps_instance_step], rule keeps_bind [OF Cons.IH])
       (rule keeps_return, simp)
qed

lemma documents_of_unchanged:
  assumes "\<And>v. within h0 v \<Longrightarrow> document_of n h v = document_of n h0 v"
  shows "list_all (within h0) vs \<Longrightarrow> documents_of n h vs = documents_of n h0 vs"
  by (induction vs) (auto simp: assms split: option.splits)

lemma document_of_unchanged:
  assumes "take (length h0) h = h0" and "closed h0"
  shows "within h0 v \<Longrightarrow> document_of n h v = document_of n h0 v"
proof (induction n arbitrary: v)
  case 0
  show ?case by simp
next
  case (Suc n)
  show ?case
  proof (cases "\<exists>a. v = PRef a")
    case False
    then show ?thesis by (cases v) simp_all
  next
    case True
    then obtain a where v: "v = PRef a" by blast
    with Suc.prems have a: "a < length h0" by (simp add: within_def)
    from arg_cong [OF assms(1), of length] have len: "length h0 \<le> length h"
      by simp
    from nth_take [of a "length h0" h] a assms(1) have same: "h ! a = h0 ! a"
      by simp
    from assms(2) a have "list_all (within h0) (members (h0 ! a))"
      by (simp add: closed_def list_all_length)
    then have "documents_of n h (members (h0 ! a)) = documents_of n h0 (members (h0 ! a))"
    proof (rule documents_of_unchanged [rotated])
      show "document_of n h v = document_of n h0 v" if "within h0 v" for v
        using that by (rule Suc.IH)
    qed
    with v a len same show ?thesis
      by (cases "h0 ! a") (simp_all add: members_def)
  qed
qed

text \<open>
  C8. Run the loop, for any indices, from the memory \<open>h0\<close> in which the templates were
  loaded, and let \<open>h\<close> be the memory when the loop ends, whether it completes or an
  instance raises. Then every object of \<open>h0\<close> is in \<open>h\<close> at its address as it was:
  the loop only makes objects and changes objects it has made. So, \<open>h0\<close> being closed,
  everything in it, the base workload template and the base endpoint template among it,
  is written out from \<open>h\<close> as the same document as from \<open>h0\<close>.
\<close>

theorem base_templates_unchanged:
  assumes "h_deploy_loop depth a base_deployment_template base_service_template
             selected_vpns indices h0 = (r, h)"
  shows "take (length h0) h = h0
       \<and> (closed h0 \<longrightarrow> (\<forall>n v. within h0 v \<longrightarrow> document_of n h v = document_of n h0 v))"
proof -
  from keeps_deploy_loop [of h0 depth a base_deployment_template base_service_template
      selected_vpns indices] assms intact_refl [of h0]
  have "intact h0 h" by (auto simp: keeps_def)
  then have "take (length h0) h = h0" by (simp add: intact_def)
  with document_of_unchanged [of h0 h] show ?thesis by blast
qed

theorem base_templates_unchanged_witness:
  "\<exists>mades h.
     h_deploy_loop 20 (example_args 2) (example_templates ! 0) (Some (example_templates ! 1))
       [''vpnA'', ''vpnB''] [0, 1] example_heap = (Inr mades, h)
   \<and> length example_heap < length h
   \<and> map (\<lambda>(d, s). document_of 20 h d) mades
       = map (\<lambda>i. case materialize_deployment example_deployment i ([''vpnA'', ''vpnB''] ! i)
                       (stream_url (example_args 2)) (replicas_per_deployment (example_args 2)) of
                     Inr (dep, rest) \<Rightarrow> Some dep
                   | Inl e \<Rightarrow> None) [0, 1]
   \<and> take (length example_heap) h = example_heap
   \<and> document_of 20 h (example_templates ! 0) = Some example_deployment
   \<and> document_of 20 h (example_templates ! 1) = Some example_service"
proof -
  let ?run = "h_deploy_loop 20 (example_args 2) (example_templates ! 0)
       (Some (example_templates ! 1)) [''vpnA'', ''vpnB''] [0, 1] example_heap"
  have "case ?run of
          (Inr mades, h) \<Rightarrow>
            length example_heap < length h
          \<and> map (\<lambda>(d, s). document_of 20 h d) mades
              = map (\<lambda>i. case materialize_deployment example_deployment i
                              ([''vpnA'', ''vpnB''] ! i) (stream_url (example_args 2))
                              (replicas_per_deployment (example_args 2)) of
                            Inr (dep, rest) \<Rightarrow> Some dep
                          | Inl e \<Rightarrow> None) [0, 1]
        | (Inl e, h) \<Rightarrow> False"
    by code_simp
  then obtain mades h where run: "?run = (Inr mades, h)"
    and more: "length example_heap < length h"
    and same: "map (\<lambda>(d, s). document_of 20 h d) mades
              = map (\<lambda>i. case materialize_deployment example_deployment i
                              ([''vpnA'', ''vpnB''] ! i) (stream_url (example_args 2))
                              (replicas_per_deployment (example_args 2)) of
                            Inr (dep, rest) \<Rightarrow> Some dep
                          | Inl e \<Rightarrow> None) [0, 1]"
    by (auto split: prod.splits sum.splits)
  have c: "closed example_heap" by code_simp
  have w: "within example_heap (example_templates ! 0)" "within example_heap (example_templates ! 1)"
    by code_simp+
  have d: "document_of 20 example_heap (example_templates ! 0) = Some example_deployment"
    "document_of 20 example_heap (example_templates ! 1) = Some example_service"
    by code_simp+
  from base_templates_unchanged [OF run] c w d
  have "take (length example_heap) h = example_heap"
    and "document_of 20 h (example_templates ! 0) = Some example_deployment"
    and "document_of 20 h (example_templates ! 1) = Some example_service"
    by auto
  with run more same show ?thesis by blast
qed


end
